theory Spec2Isabelle
  imports Complex_Main "HOL-Library.Log_Nat"
begin

section \<open>JavaScript strings and numbers\<close>

text \<open>
  A JavaScript string is modelled as a \<^typ>\<open>string\<close> whose characters are code units in
  the range 0..255 (the Latin-1 part of UTF-16). The built-in string operations used by the
  SPF checker are written out below with the behaviour they have on such strings.
\<close>

text \<open>White space as recognised by \<^verbatim>\<open>String.prototype.trim\<close> and by the regular
  expression class \<^verbatim>\<open>\s\<close>: TAB, LF, VT, FF, CR, SPACE and NBSP.\<close>

definition isWhiteSpace :: "char \<Rightarrow> bool" where
  "isWhiteSpace c = (of_char c \<in> {9, 10, 11, 12, 13, 32, 160 :: nat})"

definition trim :: "string \<Rightarrow> string" where
  "trim s = rev (dropWhile isWhiteSpace (rev (dropWhile isWhiteSpace s)))"

text \<open>\<^verbatim>\<open>s.startsWith(p)\<close>\<close>

fun startsWith :: "string \<Rightarrow> string \<Rightarrow> bool" where
  "startsWith s [] = True"
| "startsWith [] (p # ps) = False"
| "startsWith (c # cs) (p # ps) = (c = p \<and> startsWith cs ps)"

text \<open>\<^verbatim>\<open>s.includes(p)\<close>\<close>

fun includesStr :: "string \<Rightarrow> string \<Rightarrow> bool" where
  "includesStr [] p = (p = [])"
| "includesStr (c # cs) p = (startsWith (c # cs) p \<or> includesStr cs p)"

text \<open>\<^verbatim>\<open>s.replace(/"/g, '')\<close>\<close>

definition removeQuotes :: "string \<Rightarrow> string" where
  "removeQuotes s = filter (\<lambda>c. c \<noteq> CHR 0x22) s"

text \<open>\<^verbatim>\<open>s.split(/\s+/)\<close>: the pieces between maximal runs of white space; a run at
  the start or at the end of the string leaves an empty piece there.\<close>

function splitWS :: "string \<Rightarrow> string \<Rightarrow> string list" where
  "splitWS cur [] = [rev cur]"
| "splitWS cur (c # cs) =
     (if isWhiteSpace c then rev cur # splitWS [] (dropWhile isWhiteSpace cs)
      else splitWS (c # cur) cs)"
  by pat_completeness auto
termination
  by (relation "measure (\<lambda>(cur, s). length s)")
     (auto simp: le_imp_less_Suc length_dropWhile_le)

text \<open>\<^verbatim>\<open>s.split('/')\<close>\<close>

fun splitChar :: "char \<Rightarrow> string \<Rightarrow> string \<Rightarrow> string list" where
  "splitChar sep cur [] = [rev cur]"
| "splitChar sep cur (c # cs) =
     (if c = sep then rev cur # splitChar sep [] cs else splitChar sep (c # cur) cs)"

text \<open>\<^verbatim>\<open>new TextEncoder().encode(s).length\<close>: a code unit below 128 is one octet of
  UTF-8, one from 128 to 255 is two.\<close>

definition utf8Length :: "string \<Rightarrow> nat" where
  "utf8Length s = sum_list (map (\<lambda>c. if of_char c < (128::nat) then 1 else 2) s)"

text \<open>Case-insensitive matching of a regular expression with the \<^verbatim>\<open>i\<close> flag compares
  canonicalised code units. The patterns here are ASCII, and a code unit from 128 on never
  canonicalises to an ASCII one, so only the ASCII letters are folded.\<close>

definition canonicalize :: "char \<Rightarrow> char" where
  "canonicalize c =
     (case map_of (zip ''abcdefghijklmnopqrstuvwxyz'' ''ABCDEFGHIJKLMNOPQRSTUVWXYZ'') c of
        None \<Rightarrow> c
      | Some u \<Rightarrow> u)"

definition startsWithCI :: "string \<Rightarrow> string \<Rightarrow> bool" where
  "startsWithCI s p = startsWith (map canonicalize s) (map canonicalize p)"

text \<open>A JavaScript number is an IEEE 754 double. A finite double is kept as the rational
  number that it stands for, next to NaN and the two infinities; the two zeros are one
  value here (they are equal for \<^verbatim>\<open>===\<close>, and no negative number occurs in the
  checker).\<close>

datatype jsnum = NaN | PosInfinity | NegInfinity | Num rat

text \<open>Two to an integer power, as a rational.\<close>

definition twoTo :: "int \<Rightarrow> rat" where
  "twoTo k = (if 0 \<le> k then 2 ^ nat k else 1 / 2 ^ nat (- k))"

text \<open>The integer part of the binary logarithm of a positive rational: the bit
  lengths of numerator and denominator give it up to one, and a comparison decides.\<close>

definition floorLog2 :: "rat \<Rightarrow> int" where
  "floorLog2 a =
     (case quotient_of a of
        (p, q) \<Rightarrow> (let d = bitlen p - bitlen q in if twoTo d \<le> a then d else d - 1))"

text \<open>The nearest integer, the even one of two that are equally near.\<close>

definition roundHalfEven :: "rat \<Rightarrow> int" where
  "roundHalfEven x =
     (let f = \<lfloor>x\<rfloor>; r = x - of_int f in
      if r < 1 / 2 then f
      else if r > 1 / 2 then f + 1
      else if even f then f
      else f + 1)"

text \<open>The double that a real result is rounded to (to the nearest, ties to even): 53
  significant bits, a least exponent of -1022 below which the doubles are the multiples of
  \<open>2^-1074\<close>, and infinity from \<open>2^1024\<close> on.\<close>

definition roundDouble :: "rat \<Rightarrow> jsnum" where
  "roundDouble x =
     (if x = 0 then Num 0
      else
        (let a = \<bar>x\<bar>;
             e = max (floorLog2 a) (- 1022);
             q = twoTo (e - 52);
             y = of_int (roundHalfEven (a / q)) * q
         in if twoTo 1024 \<le> y then (if 0 < x then PosInfinity else NegInfinity)
            else Num (if 0 < x then y else - y)))"

text \<open>The operator \<^verbatim>\<open>+\<close> on numbers.\<close>

fun jsAdd :: "jsnum \<Rightarrow> jsnum \<Rightarrow> jsnum" where
  "jsAdd (Num a) (Num b) = roundDouble (a + b)"
| "jsAdd NaN _ = NaN"
| "jsAdd _ NaN = NaN"
| "jsAdd PosInfinity NegInfinity = NaN"
| "jsAdd NegInfinity PosInfinity = NaN"
| "jsAdd PosInfinity _ = PosInfinity"
| "jsAdd _ PosInfinity = PosInfinity"
| "jsAdd NegInfinity _ = NegInfinity"
| "jsAdd _ NegInfinity = NegInfinity"

text \<open>\<^verbatim>\<open>Math.pow(2, k)\<close> for an integer \<open>k\<close>: the power itself from \<open>2^-1074\<close>, the
  least double above 0, to \<open>2^1023\<close>; 0 below, where the power is at most half of the least
  double, and infinity above.\<close>

definition pow2 :: "int \<Rightarrow> jsnum" where
  "pow2 k =
     (if 1023 < k then PosInfinity
      else if k < - 1074 then Num 0
      else Num (twoTo k))"

text \<open>\<^verbatim>\<open>parseInt(s)\<close> without a radix: leading white space is skipped, a sign is read,
  the prefix \<^verbatim>\<open>0x\<close> or \<^verbatim>\<open>0X\<close> selects radix 16, and the longest run of digits of the
  radix is the value; no digit at all gives NaN (here \<open>None\<close>). The value is kept as the
  integer that was read. The code holds the double nearest to it, which is that integer up
  to \<open>2^53\<close>; beyond, its only use, as the exponent of \<^verbatim>\<open>Math.pow\<close>, gives 0 or infinity for
  the double as for the integer.\<close>

definition digitValue :: "char \<Rightarrow> nat option" where
  "digitValue c =
     (let n = (of_char c :: nat) in
      if 48 \<le> n \<and> n \<le> 57 then Some (n - 48)
      else if 97 \<le> n \<and> n \<le> 122 then Some (n - 87)
      else if 65 \<le> n \<and> n \<le> 90 then Some (n - 55)
      else None)"

fun readDigits :: "nat \<Rightarrow> string \<Rightarrow> nat list" where
  "readDigits radix [] = []"
| "readDigits radix (c # cs) =
     (case digitValue c of
        None \<Rightarrow> []
      | Some d \<Rightarrow> if d < radix then d # readDigits radix cs else [])"

definition digitsValue :: "nat \<Rightarrow> nat list \<Rightarrow> nat" where
  "digitsValue radix ds = foldl (\<lambda>acc d. acc * radix + d) 0 ds"

definition parseInt :: "string \<Rightarrow> int option" where
  "parseInt s =
     (let s1 = dropWhile isWhiteSpace s;
          neg = startsWith s1 ''-'';
          s2 = (if startsWith s1 ''-'' \<or> startsWith s1 ''+'' then drop 1 s1 else s1);
          hex = (startsWith s2 ''0x'' \<or> startsWith s2 ''0X'');
          radix = (if hex then 16 else 10);
          s3 = (if hex then drop 2 s2 else s2);
          ds = readDigits radix s3
      in if ds = [] then None
         else Some ((if neg then - 1 else 1) * int (digitsValue radix ds)))"

section \<open>calculateIPv4Count\<close>

text \<open>The second piece of \<^verbatim>\<open>cidr.split('/')\<close>, which is \<^verbatim>\<open>undefined\<close> when there is
  no slash.\<close>

definition bitsOf :: "string \<Rightarrow> string option" where
  "bitsOf cidr = (case splitChar CHR ''/'' [] cidr of _ # b # _ \<Rightarrow> Some b | _ \<Rightarrow> None)"

text \<open>\<^verbatim>\<open>bits ? parseInt(bits) : 32\<close>: an absent or empty piece is falsy.\<close>

definition prefixLength :: "string \<Rightarrow> int option" where
  "prefixLength cidr =
     (case bitsOf cidr of
        None \<Rightarrow> Some 32
      | Some bits \<Rightarrow> if bits = [] then Some 32 else parseInt bits)"

definition calculateIPv4Count :: "string \<Rightarrow> jsnum" where
  "calculateIPv4Count cidr =
     (case prefixLength cidr of None \<Rightarrow> NaN | Some n \<Rightarrow> pow2 (32 - n))"

section \<open>The DNS-over-HTTPS lookup: resolveSPFRecord\<close>

text \<open>One entry of the \<^verbatim>\<open>Answer\<close> array; its \<^verbatim>\<open>data\<close> member may be missing.\<close>

record answer =
  data :: "string option"

text \<open>The JSON body of the response. A missing \<^verbatim>\<open>Answer\<close> member is \<open>None\<close>.\<close>

record dns_body =
  Status :: int
  Answer :: "answer list option"

text \<open>What \<^verbatim>\<open>fetch\<close> and \<^verbatim>\<open>response.json()\<close> can do: throw, answer with a status
  that is not ok, or deliver a body.\<close>

datatype fetch_result = Threw | NotOk | Body dns_body

text \<open>The resolver is a function of the queried name. The names queried so far are kept
  in a log, the only trace of the network effect.\<close>

type_synonym dns = "string \<Rightarrow> fetch_result"

datatype lookup_error =
  MaxDepth | Network | Nxdomain | Servfail | NoAnswer | NoSpf | MultipleSpf | Exception

record spf_result =
  recordOf :: "string option"
  error :: "lookup_error option"
  isVoid :: bool
  records :: "string list option"

definition failure :: "lookup_error \<Rightarrow> bool \<Rightarrow> spf_result" where
  "failure e v = \<lparr>recordOf = None, error = Some e, isVoid = v, records = None\<rparr>"

text \<open>The filter on the answers: \<^verbatim>\<open>answer.data && (answer.data.includes('v=spf1') ||
  answer.data.includes('"v=spf1'))\<close>; an empty string is falsy.\<close>

definition isSpfAnswer :: "answer \<Rightarrow> bool" where
  "isSpfAnswer a =
     (case data a of
        None \<Rightarrow> False
      | Some d \<Rightarrow> d \<noteq> [] \<and> (includesStr d ''v=spf1'' \<or> includesStr d (CHR 0x22 # ''v=spf1'')))"

definition cleanData :: "answer \<Rightarrow> string" where
  "cleanData a = (case data a of None \<Rightarrow> [] | Some d \<Rightarrow> trim (removeQuotes d))"

text \<open>The part of resolveSPFRecord after the request has been awaited.\<close>

definition classify :: "fetch_result \<Rightarrow> spf_result" where
  "classify r =
     (case r of
        Threw \<Rightarrow> failure Exception False
      | NotOk \<Rightarrow> failure Network False
      | Body d \<Rightarrow>
          if Status d = 3 then failure Nxdomain True
          else if Status d = 2 then failure Servfail False
          else if Status d \<noteq> 0 \<or> Answer d = None \<or> Answer d = Some [] then failure NoAnswer True
          else
            (let spfRecords = filter isSpfAnswer (case Answer d of None \<Rightarrow> [] | Some as \<Rightarrow> as) in
             if length spfRecords = 0 then failure NoSpf False
             else if length spfRecords > 1 then
               \<lparr>recordOf = None, error = Some MultipleSpf, isVoid = False,
                records = Some (map cleanData spfRecords)\<rparr>
             else
               \<lparr>recordOf = Some (cleanData (hd spfRecords)), error = None, isVoid = False,
                records = None\<rparr>))"

text \<open>resolveSPFRecord: the guard, then one request, appended to the log. The visited set
  it receives is a copy that it alone changes, so the change is not returned.\<close>

definition resolveSPFRecord ::
  "dns \<Rightarrow> string \<Rightarrow> nat \<Rightarrow> string set \<Rightarrow> string list \<Rightarrow> spf_result \<times> string list" where
  "resolveSPFRecord dns domain depth visited reqs =
     (if depth > 10 \<or> domain \<in> visited then (failure MaxDepth False, reqs)
      else (classify (dns domain), reqs @ [domain]))"

section \<open>The resolution context and the tree\<close>

text \<open>The diagnostics are template strings; each template is a constructor that carries
  the values interpolated into it.\<close>

datatype message =
    MaxDepthOrCycle string
  | VoidLimitExceeded nat string
  | MultipleSPFRecords string
  | DomainNotFound string
  | NoSPFRecord string
  | BadFormat string
  | LengthExceeded nat string
  | LengthCaution nat string
  | IgnoredAfterAll string string
  | RedirectIgnored string
  | PtrDiscouraged string
  | MxExtraLookups string
  | UnknownMechanism string string

record spf_context =
  voidLookups :: nat
  warnings :: "message list"
  errors :: "message list"

definition pushError :: "message \<Rightarrow> spf_context \<Rightarrow> spf_context" where
  "pushError m ctx = ctx\<lparr>errors := errors ctx @ [m]\<rparr>"

definition pushWarning :: "message \<Rightarrow> spf_context \<Rightarrow> spf_context" where
  "pushWarning m ctx = ctx\<lparr>warnings := warnings ctx @ [m]\<rparr>"

text \<open>The default value of the \<^verbatim>\<open>context\<close> parameter.\<close>

definition freshContext :: spf_context where
  "freshContext = \<lparr>voidLookups = 0, warnings = [], errors = []\<rparr>"

datatype verdict = Softfail | Fail | Neutral | Pass

text \<open>The objects pushed on \<^verbatim>\<open>children\<close>, one constructor for each \<^verbatim>\<open>type\<close>. The
  arguments are, in the order of the source, \<^verbatim>\<open>mechanism\<close>, \<^verbatim>\<open>domain\<close>, \<^verbatim>\<open>record\<close>,
  \<^verbatim>\<open>children\<close>, \<^verbatim>\<open>dnsLookups\<close>, \<^verbatim>\<open>netblocks\<close> and \<^verbatim>\<open>qualifier\<close> for an include;
  the same without the qualifier for a redirect; \<^verbatim>\<open>mechanism\<close>, \<^verbatim>\<open>value\<close> and \<^verbatim>\<open>count\<close>
  for ip4; \<^verbatim>\<open>mechanism\<close> and \<^verbatim>\<open>value\<close> for ip6; \<^verbatim>\<open>mechanism\<close> for ptr, a, mx and
  exists, whose \<^verbatim>\<open>dnsLookups\<close> is the constant 1; \<^verbatim>\<open>mechanism\<close>, \<^verbatim>\<open>qualifier\<close> and
  \<^verbatim>\<open>position\<close> for all.\<close>

datatype child =
    Include string string string "child list" nat "string list" string
  | Redirect string string string "child list" nat "string list"
  | Ip4 string string jsnum
  | Ip6 string string
  | Ptr string
  | A string
  | Mx string
  | Exists string
  | All string verdict nat

text \<open>The three accumulators of the loop, which are also members of the node returned.\<close>

record tally =
  children :: "child list"
  dnsLookups :: nat
  netblocks :: "string list"

text \<open>The object returned by parseSPFTree. Its \<^verbatim>\<open>warnings\<close> and \<^verbatim>\<open>errors\<close> are the
  arrays of the context and its \<^verbatim>\<open>voidLookups\<close> the counter at the return; they are kept
  as \<open>diagnostics\<close>, the context at the return. Only the root's are ever read (a parent
  copies the other members of a child node and drops the node), and nothing changes the
  context after the root has returned.\<close>

record node = tally +
  nodeDomain :: string
  recordText :: string
  diagnostics :: spf_context

text \<open>The state of the loop over the mechanisms: the accumulators, the flag, the shared
  context and the log of the names queried.\<close>

record loop_state = tally +
  allFound :: bool
  shared :: spf_context
  requests :: "string list"

section \<open>The patterns of the mechanisms\<close>

definition isQualifier :: "char \<Rightarrow> bool" where
  "isQualifier c = (c = CHR ''+'' \<or> c = CHR ''-'' \<or> c = CHR ''~'' \<or> c = CHR ''?'')"

text \<open>\<^verbatim>\<open>^(\+|-|~|\?)?\<close> followed by the rest of a pattern: the group takes a leading
  qualifier when the rest matches after it, and is empty otherwise.\<close>

definition optQualifier :: "(string \<Rightarrow> bool) \<Rightarrow> string \<Rightarrow> bool" where
  "optQualifier rest s =
     ((case s of [] \<Rightarrow> False | c # cs \<Rightarrow> isQualifier c \<and> rest cs) \<or> rest s)"

text \<open>\<^verbatim>\<open>s.replace(/^(\+|-|~|\?)?name:/, '')\<close> on a string that matches.\<close>

definition stripMechanism :: "string \<Rightarrow> string \<Rightarrow> string" where
  "stripMechanism name s =
     (case s of
        [] \<Rightarrow> []
      | c # cs \<Rightarrow>
          if isQualifier c \<and> startsWith cs name then drop (length name) cs
          else if startsWith s name then drop (length name) s
          else s)"

text \<open>\<^verbatim>\<open>(:|$)\<close> and \<^verbatim>\<open>(:|\/|$)\<close> after a name of \<open>n\<close> characters.\<close>

definition colonOrEnd :: "nat \<Rightarrow> string \<Rightarrow> bool" where
  "colonOrEnd n s = (case drop n s of [] \<Rightarrow> True | c # _ \<Rightarrow> c = CHR '':'')"

definition colonSlashOrEnd :: "nat \<Rightarrow> string \<Rightarrow> bool" where
  "colonSlashOrEnd n s =
     (case drop n s of [] \<Rightarrow> True | c # _ \<Rightarrow> c = CHR '':'' \<or> c = CHR ''/'')"

definition matchInclude :: "string \<Rightarrow> bool" where
  "matchInclude s = optQualifier (\<lambda>r. startsWith r ''include:'') s"

definition matchIp4 :: "string \<Rightarrow> bool" where
  "matchIp4 s = optQualifier (\<lambda>r. startsWith r ''ip4:'') s"

definition matchIp6 :: "string \<Rightarrow> bool" where
  "matchIp6 s = optQualifier (\<lambda>r. startsWith r ''ip6:'') s"

definition matchPtr :: "string \<Rightarrow> bool" where
  "matchPtr s = optQualifier (\<lambda>r. startsWithCI r ''ptr'' \<and> colonOrEnd 3 r) s"

definition matchA :: "string \<Rightarrow> bool" where
  "matchA s = optQualifier (\<lambda>r. startsWithCI r ''a'' \<and> colonSlashOrEnd 1 r) s"

definition matchMx :: "string \<Rightarrow> bool" where
  "matchMx s = optQualifier (\<lambda>r. startsWithCI r ''mx'' \<and> colonSlashOrEnd 2 r) s"

definition matchExists :: "string \<Rightarrow> bool" where
  "matchExists s = optQualifier (\<lambda>r. startsWithCI r ''exists:'') s"

definition matchAll :: "string \<Rightarrow> bool" where
  "matchAll s = optQualifier (\<lambda>r. r = ''all'') s"

text \<open>\<^verbatim>\<open>getQualifier\<close>; \<^verbatim>\<open>charAt(0)\<close> of an empty string is the empty string.\<close>

definition getQualifier :: "string \<Rightarrow> string" where
  "getQualifier mech =
     (let first = take 1 mech in
      if first \<in> set [''+'', ''-'', ''~'', ''?''] then first else ''+'')"

text \<open>The \<^verbatim>\<open>mechanism\<close> shown for include, ip4 and ip6: an explicit qualifier in front.\<close>

definition shownMechanism :: "string \<Rightarrow> string" where
  "shownMechanism trimmed =
     (if startsWith trimmed ''+'' \<or> take 1 trimmed \<in> set [''-'', ''~'', ''?''] then trimmed
      else ''+'' @ trimmed)"

definition allVerdict :: "string \<Rightarrow> verdict" where
  "allVerdict trimmed =
     (let qualifier = take 1 trimmed in
      if qualifier = ''~'' then Softfail
      else if qualifier = ''-'' then Fail
      else if qualifier = ''?'' then Neutral
      else Pass)"

section \<open>parseSPFTree\<close>

text \<open>The void-lookup tracking after the lookup.\<close>

definition trackVoid :: "string \<Rightarrow> spf_result \<Rightarrow> spf_context \<Rightarrow> spf_context" where
  "trackVoid domain result ctx =
     (if isVoid result then
        (let ctx1 = ctx\<lparr>voidLookups := voidLookups ctx + 1\<rparr> in
         if voidLookups ctx1 > 2 then pushError (VoidLimitExceeded (voidLookups ctx1) domain) ctx1
         else ctx1)
      else ctx)"

text \<open>The branch taken when the result holds no record.\<close>

definition noRecord :: "string \<Rightarrow> spf_result \<Rightarrow> spf_context \<Rightarrow> spf_context" where
  "noRecord domain result ctx =
     (if error result = Some Nxdomain then pushWarning (DomainNotFound domain) ctx
      else if error result = Some NoSpf then pushWarning (NoSPFRecord domain) ctx
      else ctx)"

text \<open>The checks of the record's prefix and length.\<close>

definition shapeChecks :: "string \<Rightarrow> string \<Rightarrow> spf_context \<Rightarrow> spf_context" where
  "shapeChecks domain rec ctx =
     (let ctx1 = (if \<not> startsWith rec ''v=spf1'' then pushError (BadFormat domain) ctx else ctx);
          recordLength = utf8Length rec
      in if recordLength > 512 then pushError (LengthExceeded recordLength domain) ctx1
         else if recordLength > 450 then pushWarning (LengthCaution recordLength domain) ctx1
         else ctx1)"

text \<open>\<^verbatim>\<open>record.split(/\s+/).filter(m => m.trim())\<close>\<close>

definition mechanismsOf :: "string \<Rightarrow> string list" where
  "mechanismsOf rec = filter (\<lambda>m. trim m \<noteq> []) (splitWS [] rec)"

definition warn :: "message \<Rightarrow> loop_state \<Rightarrow> loop_state" where
  "warn m st = st\<lparr>shared := pushWarning m (shared st)\<rparr>"

text \<open>After a recursive call the loop goes on with the context and the log as the
  call left them.\<close>

definition returned :: "node option \<times> spf_context \<times> string list \<Rightarrow> loop_state \<Rightarrow> loop_state" where
  "returned r st = st\<lparr>shared := fst (snd r), requests := snd (snd r)\<rparr>"

text \<open>What an include does with the child returned by the recursive call.\<close>

definition addInclude :: "string \<Rightarrow> string \<Rightarrow> node option \<Rightarrow> loop_state \<Rightarrow> loop_state" where
  "addInclude trimmed includeDomain child st =
     (let st1 = st\<lparr>dnsLookups := dnsLookups st + 1\<rparr> in
      case child of
        None \<Rightarrow> st1
      | Some c \<Rightarrow>
          st1\<lparr>children := children st1 @
                 [Include (shownMechanism trimmed) includeDomain (recordText c) (children c)
                    (dnsLookups c + 1) (netblocks c) (getQualifier trimmed)],
              dnsLookups := dnsLookups st1 + dnsLookups c,
              netblocks := netblocks st1 @ netblocks c\<rparr>)"

text \<open>The same for a redirect.\<close>

definition addRedirect :: "string \<Rightarrow> string \<Rightarrow> node option \<Rightarrow> loop_state \<Rightarrow> loop_state" where
  "addRedirect trimmed redirectDomain child st =
     (let st1 = st\<lparr>dnsLookups := dnsLookups st + 1\<rparr> in
      case child of
        None \<Rightarrow> st1
      | Some c \<Rightarrow>
          st1\<lparr>children := children st1 @
                 [Redirect trimmed redirectDomain (recordText c) (children c)
                    (dnsLookups c + 1) (netblocks c)],
              dnsLookups := dnsLookups st1 + dnsLookups c,
              netblocks := netblocks st1 @ netblocks c\<rparr>)"

text \<open>The branches of the loop body that do not recurse, from ip4 down, in the order of
  the source.\<close>

definition leafStep :: "string \<Rightarrow> nat \<Rightarrow> string \<Rightarrow> loop_state \<Rightarrow> loop_state" where
  "leafStep domain i trimmed st =
     (if matchIp4 trimmed then
        (let ip = stripMechanism ''ip4:'' trimmed;
             cidr = (if includesStr ip ''/'' then ip else ip @ ''/32'')
         in st\<lparr>netblocks := netblocks st @ [cidr],
               children := children st @
                 [Ip4 (shownMechanism trimmed) cidr (calculateIPv4Count cidr)]\<rparr>)
      else if matchIp6 trimmed then
        st\<lparr>children := children st @
              [Ip6 (shownMechanism trimmed) (stripMechanism ''ip6:'' trimmed)]\<rparr>
      else if matchPtr trimmed then
        (warn (PtrDiscouraged domain) (st\<lparr>dnsLookups := dnsLookups st + 1\<rparr>))
          \<lparr>children := children st @ [Ptr trimmed]\<rparr>
      else if matchA trimmed then
        st\<lparr>dnsLookups := dnsLookups st + 1, children := children st @ [A trimmed]\<rparr>
      else if matchMx trimmed then
        (warn (MxExtraLookups domain) (st\<lparr>dnsLookups := dnsLookups st + 1\<rparr>))
          \<lparr>children := children st @ [Mx trimmed]\<rparr>
      else if matchExists trimmed then
        st\<lparr>dnsLookups := dnsLookups st + 1, children := children st @ [Exists trimmed]\<rparr>
      else if matchAll trimmed then
        st\<lparr>allFound := True, children := children st @ [All trimmed (allVerdict trimmed) i]\<rparr>
      else if \<not> startsWith trimmed ''v=spf1'' then
        warn (UnknownMechanism trimmed domain) st
      else st)"

text \<open>The redirect branch reads the flag \<^verbatim>\<open>allFound\<close> a second time. The second reading
  has a name of its own, since a recursive definition can not repeat a condition.\<close>

definition allFoundAgain :: "loop_state \<Rightarrow> bool" where
  "allFoundAgain st = allFound st"

text \<open>
  parseSPFTree and its loop over the mechanisms. The context object is shared by all the
  calls, so it is passed in and handed back changed, as is the log of requests. The visited
  set is an argument only: a caller always passes \<^verbatim>\<open>new Set(visited)\<close>, so what a callee adds
  to its set is never seen by the caller, and the set of the loop is the one made by
  \<^verbatim>\<open>visited.add(domain)\<close> before the loop.
\<close>

function parseSPFTree ::
    "dns \<Rightarrow> string \<Rightarrow> nat \<Rightarrow> string set \<Rightarrow> spf_context \<Rightarrow> string list
      \<Rightarrow> node option \<times> spf_context \<times> string list"
  and mechLoop ::
    "dns \<Rightarrow> string \<Rightarrow> nat \<Rightarrow> string set \<Rightarrow> string list \<Rightarrow> nat \<Rightarrow> loop_state \<Rightarrow> loop_state"
where
  "parseSPFTree dns domain depth visited ctx reqs =
     (if depth > 10 \<or> domain \<in> visited then
        (None, pushError (MaxDepthOrCycle domain) ctx, reqs)
      else
        (case resolveSPFRecord dns domain depth visited reqs of (result, reqs1) \<Rightarrow>
           (let ctx1 = trackVoid domain result ctx in
            if error result = Some MultipleSpf then
              (None, pushError (MultipleSPFRecords domain) ctx1, reqs1)
            else
              (case recordOf result of
                 None \<Rightarrow> (None, noRecord domain result ctx1, reqs1)
               | Some rec \<Rightarrow>
                   if rec = [] then (None, noRecord domain result ctx1, reqs1)
                   else
                     (let st = mechLoop dns domain depth (insert domain visited)
                                 (mechanismsOf rec) 0
                                 \<lparr>children = [], dnsLookups = 0, netblocks = [],
                                  allFound = False,
                                  shared = shapeChecks domain rec ctx1,
                                  requests = reqs1\<rparr>
                      in (Some \<lparr>children = children st, dnsLookups = dnsLookups st,
                                netblocks = netblocks st, nodeDomain = domain,
                                recordText = rec, diagnostics = shared st\<rparr>,
                          shared st, requests st))))))"
| "mechLoop dns domain depth visited [] i st = st"
| "mechLoop dns domain depth visited (m # ms) i st =
     (let trimmed = trim m in
      if allFound st then
        mechLoop dns domain depth visited ms (i + 1)
          (warn (IgnoredAfterAll trimmed domain) st)
      else if matchInclude trimmed then
        (let r = parseSPFTree dns (stripMechanism ''include:'' trimmed) (depth + 1) visited
                   (shared st) (requests st)
         in mechLoop dns domain depth visited ms (i + 1)
              (addInclude trimmed (stripMechanism ''include:'' trimmed) (fst r)
                 (returned r st)))
      else if startsWith trimmed ''redirect='' then
        (if allFoundAgain st then
           mechLoop dns domain depth visited ms (i + 1) (warn (RedirectIgnored domain) st)
         else
           (let r = parseSPFTree dns (drop 9 trimmed) (depth + 1) visited
                      (shared st) (requests st)
            in mechLoop dns domain depth visited ms (i + 1)
                 (addRedirect trimmed (drop 9 trimmed) (fst r) (returned r st))))
      else
        mechLoop dns domain depth visited ms (i + 1) (leafStep domain i trimmed st))"
  by pat_completeness auto
termination
  by (relation "inv_image (less_than <*lex*> less_than)
        (\<lambda>x. case x of
           Inl (dns, domain, depth, visited, ctx, reqs) \<Rightarrow> (2 * (11 - depth), 0)
         | Inr (dns, domain, depth, visited, ms, i, st) \<Rightarrow> (2 * (10 - depth) + 1, length ms))")
     auto

section \<open>checkSPF\<close>

text \<open>\<^verbatim>\<open>[...new Set(xs)]\<close>: the elements in the order of their first occurrence.\<close>

definition uniq :: "'a list \<Rightarrow> 'a list" where
  "uniq xs = rev (remdups (rev xs))"

text \<open>The object given to \<^verbatim>\<open>setResult\<close>; \<^verbatim>\<open>warnings\<close>, \<^verbatim>\<open>errors\<close> and
  \<^verbatim>\<open>voidLookups\<close> are read from the root node.\<close>

record report = spf_context +
  tree :: node
  totalLookups :: nat
  netblockCount :: nat
  ipv4Count :: jsnum
  duplicates :: "(string \<times> nat) list"

datatype ui_error = DomainMissing | SpfNotFound

datatype ui = ShowError ui_error | ShowResult report

text \<open>checkSPF on the text of the input field. The call of parseSPFTree takes the default
  arguments: depth 0, an empty visited set and a context made for the call, which only
  the node returned gives access to. Nothing in the model throws, so the \<^verbatim>\<open>catch\<close> branch
  is left out.\<close>

definition checkSPF :: "dns \<Rightarrow> string \<Rightarrow> ui" where
  "checkSPF dns input =
     (if trim input = [] then ShowError DomainMissing
      else
        (case fst (parseSPFTree dns (trim input) 0 {} freshContext []) of
           None \<Rightarrow> ShowError SpfNotFound
         | Some spfTree \<Rightarrow>
             (let uniqueNetblocks = uniq (netblocks spfTree);
                  totalIPv4Count =
                    foldl (\<lambda>sum nb. jsAdd sum (calculateIPv4Count nb)) (Num 0) uniqueNetblocks
              in ShowResult
                   \<lparr>voidLookups = voidLookups (diagnostics spfTree),
                    warnings = warnings (diagnostics spfTree),
                    errors = errors (diagnostics spfTree),
                    tree = spfTree,
                    totalLookups = dnsLookups spfTree,
                    netblockCount = length uniqueNetblocks,
                    ipv4Count = totalIPv4Count,
                    duplicates =
                      map (\<lambda>nb. (nb, count_list (netblocks spfTree) nb))
                        (filter (\<lambda>nb. count_list (netblocks spfTree) nb > 1)
                           uniqueNetblocks)\<rparr>)))"

section \<open>One round of the loop\<close>

text \<open>The body of the loop for one token, so that the loop is this step followed by the
  loop on the remaining tokens.\<close>

definition mechStep ::
  "dns \<Rightarrow> string \<Rightarrow> nat \<Rightarrow> string set \<Rightarrow> string \<Rightarrow> nat \<Rightarrow> loop_state \<Rightarrow> loop_state" where
  "mechStep dns domain depth visited m i st =
     (let trimmed = trim m in
      if allFound st then warn (IgnoredAfterAll trimmed domain) st
      else if matchInclude trimmed then
        (let r = parseSPFTree dns (stripMechanism ''include:'' trimmed) (depth + 1) visited
                   (shared st) (requests st)
         in addInclude trimmed (stripMechanism ''include:'' trimmed) (fst r) (returned r st))
      else if startsWith trimmed ''redirect='' then
        (let r = parseSPFTree dns (drop 9 trimmed) (depth + 1) visited
                   (shared st) (requests st)
         in addRedirect trimmed (drop 9 trimmed) (fst r) (returned r st))
      else leafStep domain i trimmed st)"

section \<open>Notions of the statements and example resolvers\<close>

text \<open>The definitions from here on are not of the program: they name what the theorems
  state, and give the resolvers and the expected results of the examples.\<close>

text \<open>A resolver that answers every name with two SPF records.\<close>

definition twoRecordsDns :: dns where
  "twoRecordsDns d =
     Body \<lparr>Status = 0, Answer = Some [\<lparr>data = Some ''v=spf1 -all''\<rparr>, \<lparr>data = Some ''v=spf1 +all''\<rparr>]\<rparr>"

text \<open>A resolver whose every request throws.\<close>

definition failingDns :: dns where
  "failingDns d = Threw"

text \<open>The state in which parseSPFTree starts the loop.\<close>

definition emptyState :: "spf_context \<Rightarrow> string list \<Rightarrow> loop_state" where
  "emptyState ctx reqs =
     \<lparr>children = [], dnsLookups = 0, netblocks = [], allFound = False, shared = ctx,
      requests = reqs\<rparr>"

text \<open>An answer with status 0 and one TXT entry.\<close>

definition oneRecord :: "string \<Rightarrow> fetch_result" where
  "oneRecord txt = Body \<lparr>Status = 0, Answer = Some [\<lparr>data = Some txt\<rparr>]\<rparr>"

text \<open>The values of the ip4 children of a tree, in the order of the tree.\<close>

fun ip4Values :: "child \<Rightarrow> string list" where
  "ip4Values (Include m d r cs k nbs q) = concat (map ip4Values cs)"
| "ip4Values (Redirect m d r cs k nbs) = concat (map ip4Values cs)"
| "ip4Values (Ip4 m v c) = [v]"
| "ip4Values _ = []"

text \<open>How deep includes and redirects are nested in a child.\<close>

fun levels :: "child \<Rightarrow> nat" where
  "levels (Include m d r cs k nbs q) = Suc (foldr max (map levels cs) 0)"
| "levels (Redirect m d r cs k nbs) = Suc (foldr max (map levels cs) 0)"
| "levels _ = 0"

text \<open>The netblocks of a node are the ip4 values of its tree, each with a slash.\<close>

definition netblocksOk :: "child list \<Rightarrow> string list \<Rightarrow> bool" where
  "netblocksOk cs nbs =
     (nbs = concat (map ip4Values cs) \<and> (\<forall>nb\<in>set nbs. includesStr nb ''/''))"

text \<open>Two to the power 32 minus the prefix length of a netblock, as a rational: the
  number of addresses of the block when the length is from 0 to 32.\<close>

definition addresses :: "string \<Rightarrow> rat" where
  "addresses nb = (case prefixLength nb of None \<Rightarrow> 0 | Some n \<Rightarrow> twoTo (32 - n))"

text \<open>A record with an ip4 block and a bare ip4 address, and what checkSPF shows for it.\<close>

definition examplePair :: dns where
  "examplePair d = oneRecord ''v=spf1 ip4:192.0.2.0/24 ip4:192.0.2.1''"

definition examplePairReport :: report where
  "examplePairReport =
     \<lparr>voidLookups = 0, warnings = [], errors = [],
      tree = \<lparr>children = [Ip4 ''+ip4:192.0.2.0/24'' ''192.0.2.0/24'' (Num 256),
                          Ip4 ''+ip4:192.0.2.1'' ''192.0.2.1/32'' (Num 1)],
              dnsLookups = 0, netblocks = [''192.0.2.0/24'', ''192.0.2.1/32''],
              nodeDomain = ''example.com'',
              recordText = ''v=spf1 ip4:192.0.2.0/24 ip4:192.0.2.1'',
              diagnostics = \<lparr>voidLookups = 0, warnings = [], errors = []\<rparr>\<rparr>,
      totalLookups = 0, netblockCount = 2, ipv4Count = Num 257, duplicates = []\<rparr>"

text \<open>A record with an ip4 block, an include and a redirect. The included record repeats
  the block and has an ip6 block; the record redirected to has a bare ip4 address.\<close>

definition treeDns :: dns where
  "treeDns d =
     (if d = ''example.com'' then
        oneRecord ''v=spf1 ip4:192.0.2.0/24 include:inc.example redirect=red.example''
      else if d = ''inc.example'' then oneRecord ''v=spf1 ip4:192.0.2.0/24 ip6:2001:db8::/32''
      else if d = ''red.example'' then oneRecord ''v=spf1 ip4:192.0.2.1''
      else Body \<lparr>Status = 3, Answer = None\<rparr>)"

definition treeReport :: report where
  "treeReport =
     \<lparr>voidLookups = 0, warnings = [], errors = [],
      tree = \<lparr>children =
                [Ip4 ''+ip4:192.0.2.0/24'' ''192.0.2.0/24'' (Num 256),
                 Include ''+include:inc.example'' ''inc.example''
                   ''v=spf1 ip4:192.0.2.0/24 ip6:2001:db8::/32''
                   [Ip4 ''+ip4:192.0.2.0/24'' ''192.0.2.0/24'' (Num 256),
                    Ip6 ''+ip6:2001:db8::/32'' ''2001:db8::/32'']
                   1 [''192.0.2.0/24''] ''+'',
                 Redirect ''redirect=red.example'' ''red.example'' ''v=spf1 ip4:192.0.2.1''
                   [Ip4 ''+ip4:192.0.2.1'' ''192.0.2.1/32'' (Num 1)] 1 [''192.0.2.1/32'']],
              dnsLookups = 2, netblocks = [''192.0.2.0/24'', ''192.0.2.0/24'', ''192.0.2.1/32''],
              nodeDomain = ''example.com'',
              recordText = ''v=spf1 ip4:192.0.2.0/24 include:inc.example redirect=red.example'',
              diagnostics = \<lparr>voidLookups = 0, warnings = [], errors = []\<rparr>\<rparr>,
      totalLookups = 2, netblockCount = 2, ipv4Count = Num 257,
      duplicates = [(''192.0.2.0/24'', 2)]\<rparr>"

text \<open>A record with the prefix lengths 0 and 62, and what checkSPF shows for it.\<close>

definition roundingDns :: dns where
  "roundingDns d = oneRecord ''v=spf1 ip4:1.1.1.1/0 ip4:2.2.2.2/62''"

definition roundingReport :: report where
  "roundingReport =
     \<lparr>voidLookups = 0, warnings = [], errors = [],
      tree = \<lparr>children = [Ip4 ''+ip4:1.1.1.1/0'' ''1.1.1.1/0'' (Num 4294967296),
                          Ip4 ''+ip4:2.2.2.2/62'' ''2.2.2.2/62'' (Num (1 / 1073741824))],
              dnsLookups = 0, netblocks = [''1.1.1.1/0'', ''2.2.2.2/62''],
              nodeDomain = ''example.com'',
              recordText = ''v=spf1 ip4:1.1.1.1/0 ip4:2.2.2.2/62'',
              diagnostics = \<lparr>voidLookups = 0, warnings = [], errors = []\<rparr>\<rparr>,
      totalLookups = 0, netblockCount = 2, ipv4Count = Num 4294967296, duplicates = []\<rparr>"

text \<open>A record whose prefix length is no number.\<close>

definition badPrefixDns :: dns where
  "badPrefixDns d = oneRecord ''v=spf1 ip4:192.0.2.0/24 ip4:3.3.3.3/x''"

text \<open>A chain of includes: \<^verbatim>\<open>d0\<close> includes \<^verbatim>\<open>d1\<close>, which includes \<^verbatim>\<open>d2\<close>, and so on
  to \<^verbatim>\<open>d12\<close>.\<close>

definition chainDns :: dns where
  "chainDns d =
     (case map_of
        [(''d0'', ''v=spf1 include:d1''), (''d1'', ''v=spf1 include:d2''),
         (''d2'', ''v=spf1 include:d3''), (''d3'', ''v=spf1 include:d4''),
         (''d4'', ''v=spf1 include:d5''), (''d5'', ''v=spf1 include:d6''),
         (''d6'', ''v=spf1 include:d7''), (''d7'', ''v=spf1 include:d8''),
         (''d8'', ''v=spf1 include:d9''), (''d9'', ''v=spf1 include:d10''),
         (''d10'', ''v=spf1 include:d11''), (''d11'', ''v=spf1 include:d12''),
         (''d12'', ''v=spf1 -all'')] d of
        None \<Rightarrow> Body \<lparr>Status = 3, Answer = None\<rparr>
      | Some txt \<Rightarrow> oneRecord txt)"

text \<open>The deepest nesting of includes and redirects among the children of a node.\<close>

definition nesting :: "child list \<Rightarrow> nat" where
  "nesting cs = foldr max (map levels cs) 0"

text \<open>A request whose answer is classified as NXDOMAIN or as no answer.\<close>

definition voidQuery :: "dns \<Rightarrow> string \<Rightarrow> bool" where
  "voidQuery dns q =
     (error (classify (dns q)) = Some Nxdomain \<or> error (classify (dns q)) = Some NoAnswer)"

text \<open>The errors that report the void-lookup limit.\<close>

fun isBudgetError :: "message \<Rightarrow> bool" where
  "isBudgetError (VoidLimitExceeded k d) = True"
| "isBudgetError _ = False"

text \<open>The errors that void lookups for the names \<open>qs\<close> bring when the counter stands at
  \<open>v\<close>: each lookup raises the counter, and reports it once it is above 2.\<close>

fun budgetErrors :: "nat \<Rightarrow> string list \<Rightarrow> message list" where
  "budgetErrors v [] = []"
| "budgetErrors v (q # qs) =
     (if v + 1 > 2 then [VoidLimitExceeded (v + 1) q] else []) @ budgetErrors (v + 1) qs"

text \<open>The relation between the context and the log before and after a part of a run:
  requests and errors are appended, the counter grows by the number of void requests, and
  the limit errors are those of these requests.\<close>

definition extends :: "dns \<Rightarrow> spf_context \<times> string list \<Rightarrow> spf_context \<times> string list \<Rightarrow> bool" where
  "extends dns a b =
     (\<exists>new newE.
        snd b = snd a @ new \<and> errors (fst b) = errors (fst a) @ newE \<and>
        voidLookups (fst b) = voidLookups (fst a) + length (filter (voidQuery dns) new) \<and>
        filter isBudgetError newE =
          budgetErrors (voidLookups (fst a)) (filter (voidQuery dns) new))"

text \<open>A record whose includes meet every kind of failure.\<close>

definition mixedDns :: dns where
  "mixedDns d =
     (if d = ''example.com'' then
        oneRecord ''v=spf1 include:n1 include:s1 include:t1 include:x1 include:n2 include:n3 include:n4 -all''
      else if d = ''s1'' then Body \<lparr>Status = 2, Answer = None\<rparr>
      else if d = ''t1'' then NotOk
      else if d = ''x1'' then Threw
      else if d = ''n2'' then Body \<lparr>Status = 0, Answer = None\<rparr>
      else if d = ''n4'' then Body \<lparr>Status = 0, Answer = Some []\<rparr>
      else Body \<lparr>Status = 3, Answer = None\<rparr>)"

text \<open>What a parent reads of a node, and its domain: all but the diagnostics.\<close>

definition shape :: "node \<Rightarrow> child list \<times> nat \<times> string list \<times> string \<times> string" where
  "shape n = (children n, dnsLookups n, netblocks n, nodeDomain n, recordText n)"

text \<open>Two states of the loop that agree on the accumulators and the flag.\<close>

definition sameTally :: "loop_state \<Rightarrow> loop_state \<Rightarrow> bool" where
  "sameTally a b =
     (children a = children b \<and> dnsLookups a = dnsLookups b \<and> netblocks a = netblocks b \<and>
      allFound a = allFound b)"

text \<open>No include or redirect below a child leads to a domain of \<open>V\<close> or to a domain met
  further up on its own path.\<close>

fun pathDistinct :: "string set \<Rightarrow> child \<Rightarrow> bool" where
  "pathDistinct V (Include m d r cs k nbs q) = (d \<notin> V \<and> (\<forall>c\<in>set cs. pathDistinct (insert d V) c))"
| "pathDistinct V (Redirect m d r cs k nbs) = (d \<notin> V \<and> (\<forall>c\<in>set cs. pathDistinct (insert d V) c))"
| "pathDistinct V _ = True"

text \<open>A domain that includes itself, two domains that include each other, a root whose
  two includes both lead to the same domain, and a root that includes one domain twice.\<close>

definition cycleDns :: dns where
  "cycleDns d =
     (case map_of
        [(''self'', ''v=spf1 include:self -all''),
         (''hop1'', ''v=spf1 include:hop2 -all''),
         (''hop2'', ''v=spf1 include:hop1 -all''),
         (''root'', ''v=spf1 include:b include:c -all''),
         (''b'', ''v=spf1 include:common''),
         (''c'', ''v=spf1 include:common''),
         (''common'', ''v=spf1 ip4:192.0.2.1''),
         (''twice'', ''v=spf1 include:common include:common -all'')] d of
        None \<Rightarrow> Body \<lparr>Status = 3, Answer = None\<rparr>
      | Some txt \<Rightarrow> oneRecord txt)"

text \<open>The nodes returned for these three roots.\<close>

definition selfNode :: node where
  "selfNode =
     \<lparr>children = [All ''-all'' Fail 2], dnsLookups = 1, netblocks = [],
      nodeDomain = ''self'', recordText = ''v=spf1 include:self -all'',
      diagnostics = \<lparr>voidLookups = 0, warnings = [], errors = [MaxDepthOrCycle ''self'']\<rparr>\<rparr>"

definition hopNode :: node where
  "hopNode =
     \<lparr>children =
        [Include ''+include:hop2'' ''hop2'' ''v=spf1 include:hop1 -all''
           [All ''-all'' Fail 2] 2 [] ''+'',
         All ''-all'' Fail 2],
      dnsLookups = 2, netblocks = [], nodeDomain = ''hop1'',
      recordText = ''v=spf1 include:hop2 -all'',
      diagnostics = \<lparr>voidLookups = 0, warnings = [], errors = [MaxDepthOrCycle ''hop1'']\<rparr>\<rparr>"

definition siblingNode :: node where
  "siblingNode =
     \<lparr>children =
        [Include ''+include:b'' ''b'' ''v=spf1 include:common''
           [Include ''+include:common'' ''common'' ''v=spf1 ip4:192.0.2.1''
              [Ip4 ''+ip4:192.0.2.1'' ''192.0.2.1/32'' (Num 1)] 1 [''192.0.2.1/32''] ''+'']
           2 [''192.0.2.1/32''] ''+'',
         Include ''+include:c'' ''c'' ''v=spf1 include:common''
           [Include ''+include:common'' ''common'' ''v=spf1 ip4:192.0.2.1''
              [Ip4 ''+ip4:192.0.2.1'' ''192.0.2.1/32'' (Num 1)] 1 [''192.0.2.1/32''] ''+'']
           2 [''192.0.2.1/32''] ''+'',
         All ''-all'' Fail 3],
      dnsLookups = 4, netblocks = [''192.0.2.1/32'', ''192.0.2.1/32''],
      nodeDomain = ''root'', recordText = ''v=spf1 include:b include:c -all'',
      diagnostics = \<lparr>voidLookups = 0, warnings = [], errors = []\<rparr>\<rparr>"

text \<open>The node returned for a root that includes the same domain twice.\<close>

definition twiceNode :: node where
  "twiceNode =
     \<lparr>children =
        [Include ''+include:common'' ''common'' ''v=spf1 ip4:192.0.2.1''
           [Ip4 ''+ip4:192.0.2.1'' ''192.0.2.1/32'' (Num 1)] 1 [''192.0.2.1/32''] ''+'',
         Include ''+include:common'' ''common'' ''v=spf1 ip4:192.0.2.1''
           [Ip4 ''+ip4:192.0.2.1'' ''192.0.2.1/32'' (Num 1)] 1 [''192.0.2.1/32''] ''+'',
         All ''-all'' Fail 3],
      dnsLookups = 2, netblocks = [''192.0.2.1/32'', ''192.0.2.1/32''],
      nodeDomain = ''twice'', recordText = ''v=spf1 include:common include:common -all'',
      diagnostics = \<lparr>voidLookups = 0, warnings = [], errors = []\<rparr>\<rparr>"

text \<open>The kinds of a token: one for each branch of the loop body, in its order.\<close>

datatype kind =
  KInclude | KRedirect | KIp4 | KIp6 | KPtr | KA | KMx | KExists | KAll | KUnknown | KVersion

text \<open>The branch that the loop body takes for a token while the flag is not set: the
  conditions of the source, in the order in which it tests them.\<close>

definition kindOf :: "string \<Rightarrow> kind" where
  "kindOf trimmed =
     (if matchInclude trimmed then KInclude
      else if startsWith trimmed ''redirect='' then KRedirect
      else if matchIp4 trimmed then KIp4
      else if matchIp6 trimmed then KIp6
      else if matchPtr trimmed then KPtr
      else if matchA trimmed then KA
      else if matchMx trimmed then KMx
      else if matchExists trimmed then KExists
      else if matchAll trimmed then KAll
      else if \<not> startsWith trimmed ''v=spf1'' then KUnknown
      else KVersion)"





text \<open>A record with a redirect after all.\<close>

definition redirectAfterAll :: dns where
  "redirectAfterAll d = oneRecord ''v=spf1 -all redirect=r.example''"

section \<open>Basic facts\<close>

declare parseSPFTree.simps [simp del]
declare mechLoop.simps(2) [simp del]

lemma mechLoop_Cons:
  "mechLoop dns domain depth visited (m # ms) i st =
     mechLoop dns domain depth visited ms (i + 1) (mechStep dns domain depth visited m i st)"
  by (simp add: mechLoop.simps(2) mechStep_def allFoundAgain_def Let_def)

lemma parseSPFTree_guard:
  "depth > 10 \<or> domain \<in> visited \<Longrightarrow>
     parseSPFTree dns domain depth visited ctx reqs =
       (None, pushError (MaxDepthOrCycle domain) ctx, reqs)"
  by (simp add: parseSPFTree.simps)

lemma mechLoop_invariant:
  assumes "\<And>m i st. I st \<Longrightarrow> I (mechStep dns domain depth visited m i st)"
    and "I st"
  shows "I (mechLoop dns domain depth visited ms i st)"
  using assms(2)
proof (induction ms arbitrary: i st)
  case Nil
  then show ?case by simp
next
  case (Cons m ms)
  then show ?case by (simp add: mechLoop_Cons assms(1))
qed

subsection \<open>The token all\<close>

lemma matchAll_cases:
  "matchAll t \<longleftrightarrow> t = ''all'' \<or> t = ''+all'' \<or> t = ''-all'' \<or> t = ''~all'' \<or> t = ''?all''"
  by (cases t) (auto simp: matchAll_def optQualifier_def isQualifier_def)

lemma matchAll_only:
  assumes "matchAll t"
  shows "\<not> matchInclude t" "\<not> startsWith t ''redirect=''" "\<not> matchIp4 t" "\<not> matchIp6 t"
    "\<not> matchPtr t" "\<not> matchA t" "\<not> matchMx t" "\<not> matchExists t"
  using assms unfolding matchAll_cases
  by (auto simp: matchInclude_def matchIp4_def matchIp6_def matchPtr_def matchA_def
      matchMx_def matchExists_def optQualifier_def isQualifier_def startsWithCI_def
      canonicalize_def colonSlashOrEnd_def colonOrEnd_def)

lemma leafStep_all:
  "matchAll t \<Longrightarrow>
     leafStep domain i t st =
       st\<lparr>allFound := True, children := children st @ [All t (allVerdict t) i]\<rparr>"
  by (simp add: leafStep_def matchAll_only)

lemma mechStep_all:
  "\<not> allFound st \<Longrightarrow> matchAll (trim m) \<Longrightarrow>
     mechStep dns domain depth visited m i st =
       st\<lparr>allFound := True, children := children st @ [All (trim m) (allVerdict (trim m)) i]\<rparr>"
  by (simp add: mechStep_def Let_def matchAll_only leafStep_all)

lemma mechLoop_after_all:
  "allFound st \<Longrightarrow>
     mechLoop dns domain depth visited ms i st =
       st\<lparr>shared := (shared st)\<lparr>warnings := warnings (shared st) @
                  map (\<lambda>m. IgnoredAfterAll (trim m) domain) ms\<rparr>\<rparr>"
proof (induction ms arbitrary: i st)
  case Nil
  then show ?case by simp
next
  case (Cons m ms)
  have "mechStep dns domain depth visited m i st = warn (IgnoredAfterAll (trim m) domain) st"
    using Cons.prems by (simp add: mechStep_def)
  moreover have "allFound (warn (IgnoredAfterAll (trim m) domain) st)"
    using Cons.prems by (simp add: warn_def)
  ultimately show ?case
    using Cons.IH [of "warn (IgnoredAfterAll (trim m) domain) st" "i + 1"]
    by (simp add: mechLoop_Cons warn_def pushWarning_def)
qed

subsection \<open>Answers with several SPF records\<close>

lemma startsWith_includes: "startsWith s p \<Longrightarrow> includesStr s p"
  by (cases s) (auto elim: startsWith.elims)

lemma includes_tail: "includesStr s (c # p) \<Longrightarrow> includesStr s p"
  by (induction s) (auto simp: startsWith_includes)

lemma isSpfAnswer_iff:
  "isSpfAnswer a = (case data a of None \<Rightarrow> False | Some d \<Rightarrow> includesStr d ''v=spf1'')"
  by (auto simp: isSpfAnswer_def split: option.splits dest: includes_tail)

lemma classify_multiple:
  assumes "Status b = 0" "Answer b = Some answers"
    and "2 \<le> length (filter isSpfAnswer answers)"
  shows "error (classify (Body b)) = Some MultipleSpf" "isVoid (classify (Body b)) = False"
proof -
  from assms(3) have "answers \<noteq> []" by auto
  with assms show "error (classify (Body b)) = Some MultipleSpf"
    "isVoid (classify (Body b)) = False"
    by (auto simp: classify_def Let_def)
qed

subsection \<open>Induction on the depth that remains\<close>

lemma downward_induct:
  assumes "\<And>n. n > (10::nat) \<Longrightarrow> P n" and "\<And>n. P (Suc n) \<Longrightarrow> P n"
  shows "P n"
proof (induction "11 - n" arbitrary: n)
  case 0
  then show ?case by (simp add: assms(1))
next
  case (Suc k)
  then have "k = 11 - Suc n" by simp
  then have "P (Suc n)" by (rule Suc.hyps(1))
  then show ?case by (rule assms(2))
qed

lemma parseSPFTree_lookup:
  assumes "\<not> (depth > 10 \<or> domain \<in> visited)"
  shows "parseSPFTree dns domain depth visited ctx reqs =
     (let result = classify (dns domain);
          ctx1 = trackVoid domain result ctx;
          reqs1 = reqs @ [domain]
      in if error result = Some MultipleSpf then
           (None, pushError (MultipleSPFRecords domain) ctx1, reqs1)
         else
           (case recordOf result of
              None \<Rightarrow> (None, noRecord domain result ctx1, reqs1)
            | Some rec \<Rightarrow>
                if rec = [] then (None, noRecord domain result ctx1, reqs1)
                else
                  (let st = mechLoop dns domain depth (insert domain visited)
                              (mechanismsOf rec) 0
                              (emptyState (shapeChecks domain rec ctx1) reqs1)
                   in (Some \<lparr>children = children st, dnsLookups = dnsLookups st,
                             netblocks = netblocks st, nodeDomain = domain,
                             recordText = rec, diagnostics = shared st\<rparr>,
                       shared st, requests st))))"
  using assms
  by (simp add: parseSPFTree.simps resolveSPFRecord_def emptyState_def Let_def
      split: option.split)

text \<open>A property of the node returned follows from a property of the state of the loop.\<close>

lemma parseSPFTree_node:
  assumes "fst (parseSPFTree dns domain depth visited ctx reqs) = Some n"
  obtains rec c r where
    "\<not> (depth > 10 \<or> domain \<in> visited)"
    "n = \<lparr>children = children (mechLoop dns domain depth (insert domain visited) (mechanismsOf rec) 0 (emptyState c r)),
          dnsLookups = dnsLookups (mechLoop dns domain depth (insert domain visited) (mechanismsOf rec) 0 (emptyState c r)),
          netblocks = netblocks (mechLoop dns domain depth (insert domain visited) (mechanismsOf rec) 0 (emptyState c r)),
          nodeDomain = domain, recordText = rec,
          diagnostics = shared (mechLoop dns domain depth (insert domain visited) (mechanismsOf rec) 0 (emptyState c r))\<rparr>"
proof (cases "depth > 10 \<or> domain \<in> visited")
  case True
  with assms show ?thesis by (simp add: parseSPFTree_guard)
next
  case False
  with assms that show ?thesis
    by (auto simp: parseSPFTree_lookup Let_def split: if_splits option.splits)
qed

lemma mechStep_invariant:
  assumes "I st"
    and "\<And>w. I (warn w st)"
    and "\<And>t d. C (parseSPFTree dns d (depth + 1) visited (shared st) (requests st)) \<Longrightarrow>
           I (addInclude t d (fst (parseSPFTree dns d (depth + 1) visited (shared st) (requests st)))
                (returned (parseSPFTree dns d (depth + 1) visited (shared st) (requests st)) st))"
    and "\<And>t d. C (parseSPFTree dns d (depth + 1) visited (shared st) (requests st)) \<Longrightarrow>
           I (addRedirect t d (fst (parseSPFTree dns d (depth + 1) visited (shared st) (requests st)))
                (returned (parseSPFTree dns d (depth + 1) visited (shared st) (requests st)) st))"
    and "\<And>t. I (leafStep domain i t st)"
    and "\<And>d. C (parseSPFTree dns d (depth + 1) visited (shared st) (requests st))"
  shows "I (mechStep dns domain depth visited m i st)"
  using assms by (simp add: mechStep_def Let_def)

subsection \<open>Netblocks and their total\<close>

lemma includes_append_slash: "includesStr (ip @ ''/32'') ''/''"
  by (induction ip) auto

lemma leafStep_netblocks:
  assumes "netblocksOk (children st) (netblocks st)"
  shows "netblocksOk (children (leafStep domain i t st)) (netblocks (leafStep domain i t st))"
  using assms by (auto simp: netblocksOk_def leafStep_def Let_def warn_def includes_append_slash)

lemma netblocks_are_ip4_values:
  "\<forall>domain visited ctx reqs n.
     fst (parseSPFTree dns domain depth visited ctx reqs) = Some n \<longrightarrow>
     netblocksOk (children n) (netblocks n)"
proof (induction depth rule: downward_induct)
  case (1 depth)
  then show ?case by (simp add: parseSPFTree_guard)
next
  case (2 depth)
  show ?case
  proof (intro allI impI)
    fix domain visited ctx reqs n
    assume "fst (parseSPFTree dns domain depth visited ctx reqs) = Some n"
    then obtain rec c r where
      n: "n = \<lparr>children = children (mechLoop dns domain depth (insert domain visited) (mechanismsOf rec) 0 (emptyState c r)),
          dnsLookups = dnsLookups (mechLoop dns domain depth (insert domain visited) (mechanismsOf rec) 0 (emptyState c r)),
          netblocks = netblocks (mechLoop dns domain depth (insert domain visited) (mechanismsOf rec) 0 (emptyState c r)),
          nodeDomain = domain, recordText = rec,
          diagnostics = shared (mechLoop dns domain depth (insert domain visited) (mechanismsOf rec) 0 (emptyState c r))\<rparr>"
      by (rule parseSPFTree_node)
    let ?I = "\<lambda>st :: loop_state. netblocksOk (children st) (netblocks st)"
    let ?C = "\<lambda>r :: node option \<times> spf_context \<times> string list.
                \<forall>n. fst r = Some n \<longrightarrow> netblocksOk (children n) (netblocks n)"
    have "?I (mechLoop dns domain depth (insert domain visited) (mechanismsOf rec) 0 (emptyState c r))"
    proof (rule mechLoop_invariant)
      show "?I (emptyState c r)" by (simp add: emptyState_def netblocksOk_def)
    next
      fix m i and st :: loop_state
      assume st: "?I st"
      show "?I (mechStep dns domain depth (insert domain visited) m i st)"
      proof (rule mechStep_invariant [where C = ?C])
        show "?I st" by (rule st)
      next
        fix w show "?I (warn w st)" using st by (simp add: warn_def)
      next
        fix t d
        assume "?C (parseSPFTree dns d (depth + 1) (insert domain visited) (shared st) (requests st))"
        then show "?I (addInclude t d (fst (parseSPFTree dns d (depth + 1) (insert domain visited) (shared st) (requests st)))
                (returned (parseSPFTree dns d (depth + 1) (insert domain visited) (shared st) (requests st)) st))"
          using st by (auto simp: netblocksOk_def addInclude_def returned_def Let_def split: option.split)
      next
        fix t d
        assume "?C (parseSPFTree dns d (depth + 1) (insert domain visited) (shared st) (requests st))"
        then show "?I (addRedirect t d (fst (parseSPFTree dns d (depth + 1) (insert domain visited) (shared st) (requests st)))
                (returned (parseSPFTree dns d (depth + 1) (insert domain visited) (shared st) (requests st)) st))"
          using st by (auto simp: netblocksOk_def addRedirect_def returned_def Let_def split: option.split)
      next
        fix t show "?I (leafStep domain i t st)" using st by (rule leafStep_netblocks)
      next
        fix d
        show "?C (parseSPFTree dns d (depth + 1) (insert domain visited) (shared st) (requests st))"
          using "2.IH" by simp
      qed
    qed
    then show "netblocksOk (children n) (netblocks n)"
      by (simp add: n)
  qed
qed

lemma twoTo_pos: "0 < twoTo k"
  by (simp add: twoTo_def)

lemma twoTo_nat: "0 \<le> k \<Longrightarrow> twoTo k = of_nat (2 ^ nat k)"
  by (simp add: twoTo_def)

lemma roundHalfEven_int [simp]: "roundHalfEven (of_int z) = z"
  by (simp add: roundHalfEven_def)

lemma floorLog2_nat: "floorLog2 (of_nat k) \<le> bitlen (int k) - 1"
proof -
  have "quotient_of (of_nat k) = (int k, 1)"
    using quotient_of_int [of "int k"] by simp
  moreover have "bitlen 1 = 1" by (simp add: bitlen_alt_def)
  ultimately show ?thesis by (simp add: floorLog2_def Let_def)
qed

lemma scaled_exact:
  assumes "e \<le> 52"
  shows "of_int (roundHalfEven (of_nat k / twoTo (e - 52))) * twoTo (e - 52) = (of_nat k :: rat)"
proof -
  have q: "twoTo (e - 52) = 1 / 2 ^ nat (52 - e)"
    using assms by (cases "e = 52") (simp_all add: twoTo_def)
  have "of_nat k / twoTo (e - 52) = (of_int (int k * 2 ^ nat (52 - e)) :: rat)"
    by (simp add: q)
  then have "roundHalfEven (of_nat k / twoTo (e - 52)) = int k * 2 ^ nat (52 - e)"
    by (simp only: roundHalfEven_int)
  then show ?thesis by (simp add: q)
qed

lemma roundDouble_nat:
  assumes "k < 2 ^ 53"
  shows "roundDouble (of_nat k) = Num (of_nat k)"
proof (cases "k = 0")
  case True
  then show ?thesis by (simp add: roundDouble_def)
next
  case False
  have "bitlen (int k) \<le> 53"
    using assms by (simp add: bitlen_le_iff_power)
  with floorLog2_nat [of k] have "max (floorLog2 (of_nat k)) (- 1022) \<le> 52" by simp
  then have y: "of_int (roundHalfEven (of_nat k / twoTo (max (floorLog2 (of_nat k)) (- 1022) - 52))) *
        twoTo (max (floorLog2 (of_nat k)) (- 1022) - 52) = (of_nat k :: rat)"
    by (rule scaled_exact)
  have "(of_nat k :: rat) < 2 ^ 53" using assms by (metis of_nat_less_numeral_power_cancel_iff)
  also have "\<dots> < twoTo 1024" by (simp add: twoTo_def)
  finally have "\<not> twoTo 1024 \<le> (of_nat k :: rat)" by simp
  with False y show ?thesis by (simp add: roundDouble_def Let_def)
qed

lemma addresses_nonneg: "0 \<le> addresses nb"
  using twoTo_pos [of "32 - the (prefixLength nb)"]
  by (cases "prefixLength nb") (simp_all add: addresses_def less_imp_le)

lemma jsAdd_NaN [simp]: "jsAdd a NaN = NaN"
  by (cases a) simp_all

lemma foldl_jsAdd_start_NaN:
  "foldl (\<lambda>sum nb. jsAdd sum (calculateIPv4Count nb)) NaN xs = NaN"
  by (induction xs) auto

lemma foldl_jsAdd_some_NaN:
  assumes "\<exists>nb\<in>set xs. prefixLength nb = None"
  shows "foldl (\<lambda>sum nb. jsAdd sum (calculateIPv4Count nb)) acc xs = NaN"
  using assms
proof (induction xs arbitrary: acc)
  case Nil
  then show ?case by simp
next
  case (Cons x xs)
  show ?case
  proof (cases "prefixLength x")
    case None
    then have "calculateIPv4Count x = NaN" by (simp add: calculateIPv4Count_def)
    then show ?thesis by (simp add: foldl_jsAdd_start_NaN)
  next
    case (Some n)
    with Cons.prems have "\<exists>nb\<in>set xs. prefixLength nb = None" by auto
    then show ?thesis by (simp add: Cons.IH)
  qed
qed

lemma count_in_range:
  assumes "prefixLength x = Some n" and "0 \<le> n" and "n \<le> 32"
  shows "calculateIPv4Count x = Num (of_nat (2 ^ nat (32 - n)))"
    and "addresses x = of_nat (2 ^ nat (32 - n))"
  using assms by (simp_all add: calculateIPv4Count_def addresses_def pow2_def twoTo_def)

lemma foldl_jsAdd_exact:
  assumes "\<forall>nb\<in>set xs. \<exists>n. prefixLength nb = Some n \<and> 0 \<le> n \<and> n \<le> 32"
    and "of_nat a + sum_list (map addresses xs) < 2 ^ 53"
  shows "foldl (\<lambda>sum nb. jsAdd sum (calculateIPv4Count nb)) (Num (of_nat a)) xs =
           Num (of_nat a + sum_list (map addresses xs))"
  using assms
proof (induction xs arbitrary: a)
  case Nil
  then show ?case by simp
next
  case (Cons x xs)
  from Cons.prems(1) obtain n where n: "prefixLength x = Some n" "0 \<le> n" "n \<le> 32" by auto
  let ?b = "2 ^ nat (32 - n) :: nat"
  have c: "calculateIPv4Count x = Num (of_nat ?b)" and ad: "addresses x = of_nat ?b"
    using count_in_range [OF n] by simp_all
  have "0 \<le> sum_list (map addresses xs)"
    by (rule sum_list_nonneg) (auto simp: addresses_nonneg)
  with Cons.prems(2) have "(of_nat (a + ?b) :: rat) < 2 ^ 53" by (simp add: ad)
  then have "a + ?b < 2 ^ 53" by (metis of_nat_less_numeral_power_cancel_iff)
  then have r: "roundDouble (of_nat a + of_nat ?b) = Num (of_nat (a + ?b))"
    using roundDouble_nat [of "a + ?b"] by simp
  have ih: "foldl (\<lambda>sum nb. jsAdd sum (calculateIPv4Count nb)) (Num (of_nat (a + ?b))) xs =
          Num (of_nat (a + ?b) + sum_list (map addresses xs))"
    using Cons.prems by (intro Cons.IH) (simp_all add: ad add.assoc)
  have "foldl (\<lambda>sum nb. jsAdd sum (calculateIPv4Count nb)) (Num (of_nat a)) (x # xs) =
          foldl (\<lambda>sum nb. jsAdd sum (calculateIPv4Count nb)) (roundDouble (of_nat a + of_nat ?b)) xs"
    by (simp only: foldl_Cons c jsAdd.simps)
  also have "\<dots> = Num (of_nat (a + ?b) + sum_list (map addresses xs))"
    by (simp only: r ih)
  also have "of_nat (a + ?b) + sum_list (map addresses xs) =
               of_nat a + sum_list (map addresses (x # xs))"
    by (simp add: ad add.assoc)
  finally show ?case .
qed

lemma uniq_set [simp]: "set (uniq xs) = set xs"
  by (simp add: uniq_def)

lemma uniq_distinct [simp]: "distinct (uniq xs)"
  by (simp add: uniq_def)

lemma examplePair_run:
  "checkSPF examplePair ''example.com'' =
     ShowResult examplePairReport"
  by code_simp

lemma examplePair_addresses:
  "addresses ''192.0.2.0/24'' = 256" "addresses ''192.0.2.1/32'' = 1"
  by code_simp+

lemma treeDns_run:
  "checkSPF treeDns ''example.com'' = ShowResult treeReport"
  unfolding treeReport_def by code_simp

lemma roundingDns_run:
  "checkSPF roundingDns ''example.com'' = ShowResult roundingReport"
  unfolding roundingReport_def by code_simp

lemma roundingDns_addresses:
  "addresses ''1.1.1.1/0'' = 4294967296" "addresses ''2.2.2.2/62'' = 1 / 1073741824"
  "prefixLength ''1.1.1.1/0'' = Some 0" "prefixLength ''2.2.2.2/62'' = Some 62"
  by code_simp+

lemma badPrefixDns_run:
  "case checkSPF badPrefixDns ''example.com'' of
     ShowError e \<Rightarrow> False
   | ShowResult r \<Rightarrow>
       netblocks (tree r) = [''192.0.2.0/24'', ''3.3.3.3/x''] \<and>
       prefixLength ''3.3.3.3/x'' = None \<and> ipv4Count r = NaN"
  by code_simp

lemma examplePair_prefixes:
  "prefixLength ''192.0.2.0/24'' = Some 24" "prefixLength ''192.0.2.1/32'' = Some 32"
  by code_simp+

subsection \<open>The nesting of a tree\<close>

lemma nesting_simps [simp]:
  "nesting [] = 0" "nesting (cs @ [c]) = max (nesting cs) (levels c)"
  by (induction cs) (auto simp: nesting_def)

lemma leafStep_nesting:
  "nesting (children (leafStep domain i t st)) = nesting (children st)"
  by (simp add: leafStep_def Let_def warn_def)

lemma nesting_bounded:
  "\<forall>domain visited ctx reqs n.
     fst (parseSPFTree dns domain depth visited ctx reqs) = Some n \<longrightarrow>
     depth \<le> 10 \<and> nesting (children n) \<le> 10 - depth"
proof (induction depth rule: downward_induct)
  case (1 depth)
  then show ?case by (simp add: parseSPFTree_guard)
next
  case (2 depth)
  show ?case
  proof (intro allI impI)
    fix domain visited ctx reqs n
    assume "fst (parseSPFTree dns domain depth visited ctx reqs) = Some n"
    then obtain rec c r where d: "\<not> (depth > 10 \<or> domain \<in> visited)" and
      n: "n = \<lparr>children = children (mechLoop dns domain depth (insert domain visited) (mechanismsOf rec) 0 (emptyState c r)),
          dnsLookups = dnsLookups (mechLoop dns domain depth (insert domain visited) (mechanismsOf rec) 0 (emptyState c r)),
          netblocks = netblocks (mechLoop dns domain depth (insert domain visited) (mechanismsOf rec) 0 (emptyState c r)),
          nodeDomain = domain, recordText = rec,
          diagnostics = shared (mechLoop dns domain depth (insert domain visited) (mechanismsOf rec) 0 (emptyState c r))\<rparr>"
      by (rule parseSPFTree_node)
    let ?I = "\<lambda>st :: loop_state. nesting (children st) \<le> 10 - depth"
    let ?C = "\<lambda>r :: node option \<times> spf_context \<times> string list.
                \<forall>n. fst r = Some n \<longrightarrow> Suc depth \<le> 10 \<and> nesting (children n) \<le> 10 - Suc depth"
    have "?I (mechLoop dns domain depth (insert domain visited) (mechanismsOf rec) 0 (emptyState c r))"
    proof (rule mechLoop_invariant)
      show "?I (emptyState c r)" by (simp add: emptyState_def)
    next
      fix m i and st :: loop_state
      assume st: "?I st"
      show "?I (mechStep dns domain depth (insert domain visited) m i st)"
      proof (rule mechStep_invariant [where C = ?C])
        show "?I st" by (rule st)
      next
        fix w show "?I (warn w st)" using st by (simp add: warn_def)
      next
        fix t d
        assume "?C (parseSPFTree dns d (depth + 1) (insert domain visited) (shared st) (requests st))"
        then show "?I (addInclude t d (fst (parseSPFTree dns d (depth + 1) (insert domain visited) (shared st) (requests st)))
                (returned (parseSPFTree dns d (depth + 1) (insert domain visited) (shared st) (requests st)) st))"
          using st
          by (fastforce simp: addInclude_def returned_def Let_def nesting_def [symmetric]
              split: option.split)
      next
        fix t d
        assume "?C (parseSPFTree dns d (depth + 1) (insert domain visited) (shared st) (requests st))"
        then show "?I (addRedirect t d (fst (parseSPFTree dns d (depth + 1) (insert domain visited) (shared st) (requests st)))
                (returned (parseSPFTree dns d (depth + 1) (insert domain visited) (shared st) (requests st)) st))"
          using st
          by (fastforce simp: addRedirect_def returned_def Let_def nesting_def [symmetric]
              split: option.split)
      next
        fix t show "?I (leafStep domain i t st)" using st by (simp add: leafStep_nesting)
      next
        fix d
        show "?C (parseSPFTree dns d (depth + 1) (insert domain visited) (shared st) (requests st))"
          using "2.IH" by simp
      qed
    qed
    then show "depth \<le> 10 \<and> nesting (children n) \<le> 10 - depth"
      using d by (simp add: n)
  qed
qed

lemma chain_run:
  "(\<lambda>r. (snd r, map_option dnsLookups (fst r), map_option (\<lambda>n. nesting (children n)) (fst r)))
     (parseSPFTree chainDns ''d0'' 0 {} freshContext []) =
     ((\<lparr>voidLookups = 0, warnings = [], errors = [MaxDepthOrCycle ''d11'']\<rparr>,
       [''d0'', ''d1'', ''d2'', ''d3'', ''d4'', ''d5'', ''d6'', ''d7'', ''d8'', ''d9'', ''d10'']),
      Some 11, Some 10)"
  by code_simp

lemma examplePair_tree:
  "fst (parseSPFTree examplePair ''example.com'' 0 {} freshContext []) =
     Some (tree examplePairReport)"
  unfolding examplePairReport_def by code_simp

subsection \<open>Void lookups over a run\<close>

lemma isVoid_classify:
  "isVoid (classify r) =
     (error (classify r) = Some Nxdomain \<or> error (classify r) = Some NoAnswer)"
  by (cases r) (auto simp: classify_def failure_def Let_def)

lemma budgetErrors_append:
  "budgetErrors v (a @ b) = budgetErrors v a @ budgetErrors (v + length a) b"
  by (induction a arbitrary: v) auto

lemma extends_refl: "extends dns a a"
  by (simp add: extends_def)

lemma extends_trans:
  assumes "extends dns a b" and "extends dns b c"
  shows "extends dns a c"
proof -
  from assms(1) obtain n1 e1 where 1:
    "snd b = snd a @ n1" "errors (fst b) = errors (fst a) @ e1"
    "voidLookups (fst b) = voidLookups (fst a) + length (filter (voidQuery dns) n1)"
    "filter isBudgetError e1 = budgetErrors (voidLookups (fst a)) (filter (voidQuery dns) n1)"
    unfolding extends_def by blast
  from assms(2) obtain n2 e2 where 2:
    "snd c = snd b @ n2" "errors (fst c) = errors (fst b) @ e2"
    "voidLookups (fst c) = voidLookups (fst b) + length (filter (voidQuery dns) n2)"
    "filter isBudgetError e2 = budgetErrors (voidLookups (fst b)) (filter (voidQuery dns) n2)"
    unfolding extends_def by blast
  have "snd c = snd a @ (n1 @ n2)" "errors (fst c) = errors (fst a) @ (e1 @ e2)"
    "voidLookups (fst c) = voidLookups (fst a) + length (filter (voidQuery dns) (n1 @ n2))"
    "filter isBudgetError (e1 @ e2) =
       budgetErrors (voidLookups (fst a)) (filter (voidQuery dns) (n1 @ n2))"
    using 1 2 by (simp_all add: budgetErrors_append)
  then show ?thesis unfolding extends_def by blast
qed

lemma extends_pushWarning: "extends dns (c, r) (pushWarning m c, r)"
  by (simp add: extends_def pushWarning_def)

lemma extends_pushError: "\<not> isBudgetError m \<Longrightarrow> extends dns (c, r) (pushError m c, r)"
  by (simp add: extends_def pushError_def)

lemma extends_lookup:
  "extends dns (c, r) (trackVoid domain (classify (dns domain)) c, r @ [domain])"
  by (simp add: extends_def trackVoid_def isVoid_classify voidQuery_def pushError_def Let_def)

lemma extends_noRecord: "extends dns (c, r) (noRecord domain result c, r)"
  by (simp add: noRecord_def extends_pushWarning extends_refl)

lemma extends_shapeChecks: "extends dns (c, r) (shapeChecks domain rec c, r)"
  unfolding shapeChecks_def Let_def
  by (auto intro: extends_trans [OF extends_pushError extends_pushError]
      extends_trans [OF extends_pushError extends_pushWarning]
      extends_pushError extends_pushWarning extends_refl)

lemma leafStep_shared:
  "extends dns a (shared st, requests st) \<Longrightarrow>
     extends dns a (shared (leafStep domain i t st), requests (leafStep domain i t st))"
  by (auto simp: leafStep_def Let_def warn_def intro: extends_trans [OF _ extends_pushWarning])

lemma parseSPFTree_extends:
  "\<forall>domain visited ctx reqs.
     extends dns (ctx, reqs) (snd (parseSPFTree dns domain depth visited ctx reqs))"
proof (induction depth rule: downward_induct)
  case (1 depth)
  then show ?case by (simp add: parseSPFTree_guard extends_pushError)
next
  case (2 depth)
  show ?case
  proof (intro allI)
    fix domain visited ctx reqs
    show "extends dns (ctx, reqs) (snd (parseSPFTree dns domain depth visited ctx reqs))"
    proof (cases "depth > 10 \<or> domain \<in> visited")
      case True
      then show ?thesis by (simp add: parseSPFTree_guard extends_pushError)
    next
      case False
      let ?res = "classify (dns domain)"
      let ?c1 = "trackVoid domain ?res ctx"
      let ?r1 = "reqs @ [domain]"
      have l: "extends dns (ctx, reqs) (?c1, ?r1)" by (rule extends_lookup)
      have loop: "extends dns (ctx, reqs)
           (shared (mechLoop dns domain depth (insert domain visited) ms 0
                      (emptyState (shapeChecks domain rec ?c1) ?r1)),
            requests (mechLoop dns domain depth (insert domain visited) ms 0
                      (emptyState (shapeChecks domain rec ?c1) ?r1)))" for rec ms
      proof (rule mechLoop_invariant
          [where I = "\<lambda>st. extends dns (ctx, reqs) (shared st, requests st)"])
        show "extends dns (ctx, reqs)
               (shared (emptyState (shapeChecks domain rec ?c1) ?r1),
                requests (emptyState (shapeChecks domain rec ?c1) ?r1))"
          using extends_trans [OF l extends_shapeChecks] by (simp add: emptyState_def)
      next
        fix m i and st :: loop_state
        assume st: "extends dns (ctx, reqs) (shared st, requests st)"
        show "extends dns (ctx, reqs)
                (shared (mechStep dns domain depth (insert domain visited) m i st),
                 requests (mechStep dns domain depth (insert domain visited) m i st))"
        proof (rule mechStep_invariant
            [where C = "\<lambda>r. extends dns (shared st, requests st) (snd r)"
               and I = "\<lambda>st. extends dns (ctx, reqs) (shared st, requests st)"])
          show "extends dns (ctx, reqs) (shared st, requests st)" by (rule st)
        next
          fix w
          show "extends dns (ctx, reqs) (shared (warn w st), requests (warn w st))"
            using extends_trans [OF st extends_pushWarning] by (simp add: warn_def)
        next
          fix t d
          assume "extends dns (shared st, requests st)
                    (snd (parseSPFTree dns d (depth + 1) (insert domain visited) (shared st) (requests st)))"
          from extends_trans [OF st this]
          show "extends dns (ctx, reqs)
              (shared (addInclude t d (fst (parseSPFTree dns d (depth + 1) (insert domain visited) (shared st) (requests st)))
                (returned (parseSPFTree dns d (depth + 1) (insert domain visited) (shared st) (requests st)) st)),
               requests (addInclude t d (fst (parseSPFTree dns d (depth + 1) (insert domain visited) (shared st) (requests st)))
                (returned (parseSPFTree dns d (depth + 1) (insert domain visited) (shared st) (requests st)) st)))"
            by (simp add: addInclude_def returned_def Let_def split: option.split)
        next
          fix t d
          assume "extends dns (shared st, requests st)
                    (snd (parseSPFTree dns d (depth + 1) (insert domain visited) (shared st) (requests st)))"
          from extends_trans [OF st this]
          show "extends dns (ctx, reqs)
              (shared (addRedirect t d (fst (parseSPFTree dns d (depth + 1) (insert domain visited) (shared st) (requests st)))
                (returned (parseSPFTree dns d (depth + 1) (insert domain visited) (shared st) (requests st)) st)),
               requests (addRedirect t d (fst (parseSPFTree dns d (depth + 1) (insert domain visited) (shared st) (requests st)))
                (returned (parseSPFTree dns d (depth + 1) (insert domain visited) (shared st) (requests st)) st)))"
            by (simp add: addRedirect_def returned_def Let_def split: option.split)
        next
          fix t
          show "extends dns (ctx, reqs)
                  (shared (leafStep domain i t st), requests (leafStep domain i t st))"
            using st by (rule leafStep_shared)
        next
          fix d
          show "extends dns (shared st, requests st)
                  (snd (parseSPFTree dns d (depth + 1) (insert domain visited) (shared st) (requests st)))"
            using "2.IH" by simp
        qed
      qed
      show ?thesis
        using False l loop
          extends_trans [OF l extends_pushError [of "MultipleSPFRecords domain"]]
          extends_trans [OF l extends_noRecord]
        by (simp add: parseSPFTree_lookup Let_def split: option.split)
    qed
  qed
qed

lemma voidQuery_response:
  "voidQuery dns q =
     (case dns q of
        Threw \<Rightarrow> False
      | NotOk \<Rightarrow> False
      | Body b \<Rightarrow>
          Status b = 3 \<or>
          (Status b \<noteq> 2 \<and> (Status b \<noteq> 0 \<or> Answer b = None \<or> Answer b = Some [])))"
  by (cases "dns q") (auto simp: voidQuery_def classify_def failure_def Let_def)

lemma mixedDns_run:
  "snd (parseSPFTree mixedDns ''example.com'' 0 {} freshContext []) =
     (\<lparr>voidLookups = 4,
       warnings = [DomainNotFound ''n1'', DomainNotFound ''n3''],
       errors = [VoidLimitExceeded 3 ''n3'', VoidLimitExceeded 4 ''n4'']\<rparr>,
      [''example.com'', ''n1'', ''s1'', ''t1'', ''x1'', ''n2'', ''n3'', ''n4''])"
  by code_simp

subsection \<open>The node and the context\<close>

lemma mechLoop_sameTally:
  assumes "\<And>m i a b. sameTally a b \<Longrightarrow>
             sameTally (mechStep dns domain depth visited m i a)
                       (mechStep dns domain depth visited m i b)"
    and "sameTally a b"
  shows "sameTally (mechLoop dns domain depth visited ms i a)
                   (mechLoop dns domain depth visited ms i b)"
  using assms(2)
proof (induction ms arbitrary: i a b)
  case Nil
  then show ?case by simp
next
  case (Cons m ms)
  then show ?case by (simp add: mechLoop_Cons assms(1))
qed

lemma leafStep_sameTally:
  "sameTally a b \<Longrightarrow> sameTally (leafStep domain i t a) (leafStep domain i t b)"
  by (simp add: sameTally_def leafStep_def Let_def warn_def)

lemma addInclude_sameTally:
  assumes "sameTally a b" and "map_option shape x = map_option shape y"
  shows "sameTally (addInclude t d x (returned r a)) (addInclude t d y (returned r' b))"
  using assms
  by (cases x; cases y) (auto simp: sameTally_def addInclude_def returned_def shape_def Let_def)

lemma addRedirect_sameTally:
  assumes "sameTally a b" and "map_option shape x = map_option shape y"
  shows "sameTally (addRedirect t d x (returned r a)) (addRedirect t d y (returned r' b))"
  using assms
  by (cases x; cases y) (auto simp: sameTally_def addRedirect_def returned_def shape_def Let_def)

lemma shape_independent:
  "\<forall>domain visited ctx reqs ctx' reqs'.
     map_option shape (fst (parseSPFTree dns domain depth visited ctx reqs)) =
     map_option shape (fst (parseSPFTree dns domain depth visited ctx' reqs'))"
proof (induction depth rule: downward_induct)
  case (1 depth)
  then show ?case by (simp add: parseSPFTree_guard)
next
  case (2 depth)
  show ?case
  proof (intro allI)
    fix domain visited ctx reqs ctx' reqs'
    show "map_option shape (fst (parseSPFTree dns domain depth visited ctx reqs)) =
          map_option shape (fst (parseSPFTree dns domain depth visited ctx' reqs'))"
    proof (cases "depth > 10 \<or> domain \<in> visited")
      case True
      then show ?thesis by (simp add: parseSPFTree_guard)
    next
      case False
      have step: "sameTally (mechStep dns domain depth (insert domain visited) m i a)
                            (mechStep dns domain depth (insert domain visited) m i b)"
        if "sameTally a b" for m i a b
      proof -
        have f: "allFound a = allFound b" using that by (simp add: sameTally_def)
        have w: "sameTally (warn x a) (warn x b)" for x
          using that by (simp add: sameTally_def warn_def)
        have ih: "map_option shape
                    (fst (parseSPFTree dns d (Suc depth) (insert domain visited) (shared a) (requests a))) =
                  map_option shape
                    (fst (parseSPFTree dns d (Suc depth) (insert domain visited) (shared b) (requests b)))"
          for d using "2.IH" by simp
        show ?thesis
          using f w that
          by (simp add: mechStep_def Let_def leafStep_sameTally
              addInclude_sameTally [OF that ih] addRedirect_sameTally [OF that ih])
      qed
      have "sameTally
              (mechLoop dns domain depth (insert domain visited) ms 0 (emptyState c r))
              (mechLoop dns domain depth (insert domain visited) ms 0 (emptyState c' r'))"
        for ms c r c' r'
        by (rule mechLoop_sameTally) (simp_all add: step, simp add: sameTally_def emptyState_def)
      then show ?thesis
        using False
        by (simp add: parseSPFTree_lookup Let_def shape_def sameTally_def
            split: option.split)
    qed
  qed
qed

lemma nodeDomain_result:
  "fst (parseSPFTree dns domain depth visited ctx reqs) = Some n \<Longrightarrow> nodeDomain n = domain"
  by (erule parseSPFTree_node) simp

lemma leafStep_acyclic:
  "\<forall>c\<in>set (children st). pathDistinct V c \<Longrightarrow>
     \<forall>c\<in>set (children (leafStep domain i t st)). pathDistinct V c"
  by (simp add: leafStep_def Let_def warn_def)

lemma tree_acyclic:
  "\<forall>domain visited ctx reqs n.
     fst (parseSPFTree dns domain depth visited ctx reqs) = Some n \<longrightarrow>
     domain \<notin> visited \<and> (\<forall>c\<in>set (children n). pathDistinct (insert domain visited) c)"
proof (induction depth rule: downward_induct)
  case (1 depth)
  then show ?case by (simp add: parseSPFTree_guard)
next
  case (2 depth)
  show ?case
  proof (intro allI impI)
    fix domain visited ctx reqs n
    assume "fst (parseSPFTree dns domain depth visited ctx reqs) = Some n"
    then obtain rec c r where d: "\<not> (depth > 10 \<or> domain \<in> visited)" and
      n: "n = \<lparr>children = children (mechLoop dns domain depth (insert domain visited) (mechanismsOf rec) 0 (emptyState c r)),
          dnsLookups = dnsLookups (mechLoop dns domain depth (insert domain visited) (mechanismsOf rec) 0 (emptyState c r)),
          netblocks = netblocks (mechLoop dns domain depth (insert domain visited) (mechanismsOf rec) 0 (emptyState c r)),
          nodeDomain = domain, recordText = rec,
          diagnostics = shared (mechLoop dns domain depth (insert domain visited) (mechanismsOf rec) 0 (emptyState c r))\<rparr>"
      by (rule parseSPFTree_node)
    let ?V = "insert domain visited"
    let ?I = "\<lambda>st :: loop_state. \<forall>c\<in>set (children st). pathDistinct ?V c"
    let ?C = "\<lambda>r :: node option \<times> spf_context \<times> string list.
                \<forall>n. fst r = Some n \<longrightarrow>
                  nodeDomain n \<notin> ?V \<and> (\<forall>c\<in>set (children n). pathDistinct (insert (nodeDomain n) ?V) c)"
    have "?I (mechLoop dns domain depth ?V (mechanismsOf rec) 0 (emptyState c r))"
    proof (rule mechLoop_invariant)
      show "?I (emptyState c r)" by (simp add: emptyState_def)
    next
      fix m i and st :: loop_state
      assume st: "?I st"
      show "?I (mechStep dns domain depth ?V m i st)"
      proof (rule mechStep_invariant [where C = ?C])
        show "?I st" by (rule st)
      next
        fix w show "?I (warn w st)" using st by (simp add: warn_def)
      next
        fix t d
        assume "?C (parseSPFTree dns d (depth + 1) ?V (shared st) (requests st))"
        then show "?I (addInclude t d (fst (parseSPFTree dns d (depth + 1) ?V (shared st) (requests st)))
                (returned (parseSPFTree dns d (depth + 1) ?V (shared st) (requests st)) st))"
          using st nodeDomain_result [of dns d "depth + 1" ?V "shared st" "requests st"]
          by (auto simp: addInclude_def returned_def Let_def split: option.split)
      next
        fix t d
        assume "?C (parseSPFTree dns d (depth + 1) ?V (shared st) (requests st))"
        then show "?I (addRedirect t d (fst (parseSPFTree dns d (depth + 1) ?V (shared st) (requests st)))
                (returned (parseSPFTree dns d (depth + 1) ?V (shared st) (requests st)) st))"
          using st nodeDomain_result [of dns d "depth + 1" ?V "shared st" "requests st"]
          by (auto simp: addRedirect_def returned_def Let_def split: option.split)
      next
        fix t show "?I (leafStep domain i t st)" using st by (rule leafStep_acyclic)
      next
        fix d
        show "?C (parseSPFTree dns d (depth + 1) ?V (shared st) (requests st))"
        proof (intro allI impI)
          fix n'
          assume a: "fst (parseSPFTree dns d (depth + 1) ?V (shared st) (requests st)) = Some n'"
          then have "nodeDomain n' = d" by (rule nodeDomain_result)
          moreover from a have "fst (parseSPFTree dns d (Suc depth) ?V (shared st) (requests st)) = Some n'"
            by simp
          with "2.IH" have "d \<notin> ?V \<and> (\<forall>c\<in>set (children n'). pathDistinct (insert d ?V) c)"
            by blast
          ultimately show "nodeDomain n' \<notin> ?V \<and>
              (\<forall>c\<in>set (children n'). pathDistinct (insert (nodeDomain n') ?V) c)"
            by simp
        qed
      qed
    qed
    then show "domain \<notin> visited \<and> (\<forall>c\<in>set (children n). pathDistinct (insert domain visited) c)"
      using d by (simp add: n)
  qed
qed

lemma diagnostics_result:
  "fst (parseSPFTree dns domain depth visited ctx reqs) = Some n \<Longrightarrow>
     diagnostics n = fst (snd (parseSPFTree dns domain depth visited ctx reqs))"
  by (cases "depth > 10 \<or> domain \<in> visited")
    (auto simp: parseSPFTree_guard parseSPFTree_lookup Let_def split: if_splits option.splits)

lemma cycleDns_self:
  "parseSPFTree cycleDns ''self'' 0 {} freshContext [] =
     (Some selfNode,
      \<lparr>voidLookups = 0, warnings = [], errors = [MaxDepthOrCycle ''self'']\<rparr>, [''self''])"
  unfolding selfNode_def by code_simp

lemma cycleDns_hop:
  "parseSPFTree cycleDns ''hop1'' 0 {} freshContext [] =
     (Some hopNode,
      \<lparr>voidLookups = 0, warnings = [], errors = [MaxDepthOrCycle ''hop1'']\<rparr>,
      [''hop1'', ''hop2''])"
  unfolding hopNode_def by code_simp

lemma cycleDns_siblings:
  "parseSPFTree cycleDns ''root'' 0 {} freshContext [] =
     (Some siblingNode, \<lparr>voidLookups = 0, warnings = [], errors = []\<rparr>,
      [''root'', ''b'', ''common'', ''c'', ''common''])"
  unfolding siblingNode_def by code_simp

lemma cycleDns_twice:
  "parseSPFTree cycleDns ''twice'' 0 {} freshContext [] =
     (Some twiceNode, \<lparr>voidLookups = 0, warnings = [], errors = []\<rparr>,
      [''twice'', ''common'', ''common''])"
  unfolding twiceNode_def by code_simp

text \<open>The loop on a list of tokens that is split in two, and the step for an include and
  for a redirect.\<close>

lemma mechLoop_append:
  "mechLoop dns domain depth visited (pre @ ms) i st =
     mechLoop dns domain depth visited ms (i + length pre)
       (mechLoop dns domain depth visited pre i st)"
proof (induction pre arbitrary: i st)
  case Nil
  then show ?case by simp
next
  case (Cons m pre)
  then show ?case by (simp add: mechLoop_Cons)
qed

lemma mechStep_include:
  "\<not> allFound st \<Longrightarrow> matchInclude (trim m) \<Longrightarrow>
     mechStep dns domain depth visited m i st =
       (let r = parseSPFTree dns (stripMechanism ''include:'' (trim m)) (depth + 1) visited
                  (shared st) (requests st)
        in addInclude (trim m) (stripMechanism ''include:'' (trim m)) (fst r) (returned r st))"
  by (simp add: mechStep_def Let_def)

lemma mechStep_redirect:
  "\<not> allFound st \<Longrightarrow> \<not> matchInclude (trim m) \<Longrightarrow> startsWith (trim m) ''redirect='' \<Longrightarrow>
     mechStep dns domain depth visited m i st =
       (let r = parseSPFTree dns (drop 9 (trim m)) (depth + 1) visited (shared st) (requests st)
        in addRedirect (trim m) (drop 9 (trim m)) (fst r) (returned r st))"
  by (simp add: mechStep_def Let_def)

lemma parseSPFTree_loop:
  assumes "fst (parseSPFTree dns domain depth visited ctx reqs) = Some n"
  shows "(let st = mechLoop dns domain depth (insert domain visited)
                    (mechanismsOf (recordText n)) 0
                    (emptyState
                       (shapeChecks domain (recordText n)
                          (trackVoid domain (classify (dns domain)) ctx))
                       (reqs @ [domain]))
          in n = \<lparr>children = children st, dnsLookups = dnsLookups st, netblocks = netblocks st,
                  nodeDomain = domain, recordText = recordText n, diagnostics = shared st\<rparr>)"
proof (cases "depth > 10 \<or> domain \<in> visited")
  case True
  with assms show ?thesis by (simp add: parseSPFTree_guard)
next
  case False
  with assms show ?thesis
    by (auto simp: parseSPFTree_lookup Let_def split: if_splits option.splits)
qed

subsection \<open>The patterns and the case of letters\<close>

lemma canonicalize_cases:
  "canonicalize c = c \<or>
   (c, canonicalize c) \<in> set (zip ''abcdefghijklmnopqrstuvwxyz'' ''ABCDEFGHIJKLMNOPQRSTUVWXYZ'')"
  unfolding canonicalize_def by (auto split: option.split dest: map_of_SomeD)


lemma canonicalize_other:
  "canonicalize c = CHR '':'' \<longleftrightarrow> c = CHR '':''"
  "canonicalize c = CHR ''/'' \<longleftrightarrow> c = CHR ''/''"
  "canonicalize c = CHR ''+'' \<longleftrightarrow> c = CHR ''+''"
  "canonicalize c = CHR ''-'' \<longleftrightarrow> c = CHR ''-''"
  "canonicalize c = CHR ''~'' \<longleftrightarrow> c = CHR ''~''"
  "canonicalize c = CHR ''?'' \<longleftrightarrow> c = CHR ''?''"
  "canonicalize c = CHR ''='' \<longleftrightarrow> c = CHR ''=''"
  using canonicalize_cases [of c] by (auto simp: canonicalize_def)

lemma canonicalize_idem [simp]: "canonicalize (canonicalize c) = canonicalize c"
  using canonicalize_cases [of c] by (auto simp: canonicalize_def)

lemma isQualifier_canonicalize [simp]: "isQualifier (canonicalize c) = isQualifier c"
  by (simp add: isQualifier_def canonicalize_other)

lemma startsWithCI_canonicalize [simp]:
  "startsWithCI (map canonicalize r) p = startsWithCI r p"
  by (simp add: startsWithCI_def comp_def)

lemma colonOrEnd_canonicalize [simp]:
  "colonOrEnd n (map canonicalize r) = colonOrEnd n r"
  by (simp add: colonOrEnd_def drop_map canonicalize_other split: list.split)

lemma colonSlashOrEnd_canonicalize [simp]:
  "colonSlashOrEnd n (map canonicalize r) = colonSlashOrEnd n r"
  by (simp add: colonSlashOrEnd_def drop_map canonicalize_other split: list.split)







lemma startsWithCI_Nil [simp]: "startsWithCI s []"
  by (simp add: startsWithCI_def)













lemma mechStep_leaf:
  "\<not> allFound st \<Longrightarrow> \<not> matchInclude (trim m) \<Longrightarrow> \<not> startsWith (trim m) ''redirect='' \<Longrightarrow>
     mechStep dns domain depth visited m i st = leafStep domain i (trim m) st"
  by (simp add: mechStep_def)



lemma kindOf_leaf_iff:
  "kindOf t = KIp4 \<longleftrightarrow> \<not> matchInclude t \<and> \<not> startsWith t ''redirect='' \<and> matchIp4 t"
  "kindOf t = KIp6 \<longleftrightarrow>
     \<not> matchInclude t \<and> \<not> startsWith t ''redirect='' \<and> \<not> matchIp4 t \<and> matchIp6 t"
  "kindOf t = KPtr \<longleftrightarrow>
     \<not> matchInclude t \<and> \<not> startsWith t ''redirect='' \<and> \<not> matchIp4 t \<and> \<not> matchIp6 t \<and>
     matchPtr t"
  "kindOf t = KMx \<longleftrightarrow>
     \<not> matchInclude t \<and> \<not> startsWith t ''redirect='' \<and> \<not> matchIp4 t \<and> \<not> matchIp6 t \<and>
     \<not> matchPtr t \<and> \<not> matchA t \<and> matchMx t"
  "kindOf t = KExists \<longleftrightarrow>
     \<not> matchInclude t \<and> \<not> startsWith t ''redirect='' \<and> \<not> matchIp4 t \<and> \<not> matchIp6 t \<and>
     \<not> matchPtr t \<and> \<not> matchA t \<and> \<not> matchMx t \<and> matchExists t"
  by (simp_all add: kindOf_def)

lemma leafStep_kinds:
  "kindOf t = KIp4 \<Longrightarrow>
     leafStep domain i t st =
       (let ip = stripMechanism ''ip4:'' t;
            cidr = (if includesStr ip ''/'' then ip else ip @ ''/32'')
        in st\<lparr>netblocks := netblocks st @ [cidr],
              children := children st @ [Ip4 (shownMechanism t) cidr (calculateIPv4Count cidr)]\<rparr>)"
  "kindOf t = KIp6 \<Longrightarrow>
     leafStep domain i t st =
       st\<lparr>children := children st @ [Ip6 (shownMechanism t) (stripMechanism ''ip6:'' t)]\<rparr>"
  "kindOf t = KPtr \<Longrightarrow>
     leafStep domain i t st =
       st\<lparr>dnsLookups := dnsLookups st + 1,
          shared := (shared st)\<lparr>warnings := warnings (shared st) @ [PtrDiscouraged domain]\<rparr>,
          children := children st @ [Ptr t]\<rparr>"
  "kindOf t = KMx \<Longrightarrow>
     leafStep domain i t st =
       st\<lparr>dnsLookups := dnsLookups st + 1,
          shared := (shared st)\<lparr>warnings := warnings (shared st) @ [MxExtraLookups domain]\<rparr>,
          children := children st @ [Mx t]\<rparr>"
  "kindOf t = KExists \<Longrightarrow>
     leafStep domain i t st =
       st\<lparr>dnsLookups := dnsLookups st + 1, children := children st @ [Exists t]\<rparr>"
  by (simp_all add: kindOf_leaf_iff leafStep_def warn_def pushWarning_def)








subsection \<open>Runs of the examples\<close>



lemma failing_lookups_run:
  "parseSPFTree mixedDns ''s1'' 0 {} freshContext [] = (None, freshContext, [''s1''])"
  "parseSPFTree mixedDns ''t1'' 0 {} freshContext [] = (None, freshContext, [''t1''])"
  "parseSPFTree mixedDns ''x1'' 0 {} freshContext [] = (None, freshContext, [''x1''])"
  by code_simp+

lemma redirectAfterAll_run:
  "parseSPFTree redirectAfterAll ''example.com'' 0 {} freshContext [] =
     (Some \<lparr>children = [All ''-all'' Fail 1], dnsLookups = 0, netblocks = [],
            nodeDomain = ''example.com'', recordText = ''v=spf1 -all redirect=r.example'',
            diagnostics =
              \<lparr>voidLookups = 0,
               warnings = [IgnoredAfterAll ''redirect=r.example'' ''example.com''],
               errors = []\<rparr>\<rparr>,
      \<lparr>voidLookups = 0,
       warnings = [IgnoredAfterAll ''redirect=r.example'' ''example.com''], errors = []\<rparr>,
      [''example.com''])"
  by code_simp


section \<open>Multiple SPF records\<close>

text \<open>
  C4. When the answer for a domain has status 0 and two or more entries whose data contains
  \<^verbatim>\<open>v=spf1\<close>, parseSPFTree returns no node for the domain and leaves the shared list of
  errors non-empty, whatever the records say; when the call passes the depth and cycle
  guard, it makes the one request, appends exactly the PermError for the domain and changes
  nothing else in the context.
\<close>

theorem multiple_spf_records_rejected:
  assumes "dns domain = Body b" and "Status b = 0" and "Answer b = Some answers"
    and "2 \<le> length (filter (\<lambda>a. case data a of None \<Rightarrow> False
                                     | Some d \<Rightarrow> includesStr d ''v=spf1'') answers)"
  shows "fst (parseSPFTree dns domain depth visited ctx reqs) = None \<and>
         errors (fst (snd (parseSPFTree dns domain depth visited ctx reqs))) \<noteq> [] \<and>
         (\<not> (depth > 10 \<or> domain \<in> visited) \<longrightarrow>
            parseSPFTree dns domain depth visited ctx reqs =
              (None, ctx\<lparr>errors := errors ctx @ [MultipleSPFRecords domain]\<rparr>, reqs @ [domain]))"
proof (cases "depth > 10 \<or> domain \<in> visited")
  case True
  then show ?thesis by (simp add: parseSPFTree_guard pushError_def)
next
  case False
  have m: "2 \<le> length (filter isSpfAnswer answers)"
    using assms(4) by (simp add: isSpfAnswer_iff [abs_def])
  have "parseSPFTree dns domain depth visited ctx reqs =
          (None, ctx\<lparr>errors := errors ctx @ [MultipleSPFRecords domain]\<rparr>, reqs @ [domain])"
    using False classify_multiple [OF assms(2,3) m] assms(1)
    by (simp add: parseSPFTree.simps resolveSPFRecord_def trackVoid_def pushError_def)
  then show ?thesis using False by simp
qed

theorem multiple_spf_records_rejected_witness:
  "twoRecordsDns ''example.com'' =
     Body \<lparr>Status = 0, Answer = Some [\<lparr>data = Some ''v=spf1 -all''\<rparr>, \<lparr>data = Some ''v=spf1 +all''\<rparr>]\<rparr> \<and>
   2 \<le> length (filter (\<lambda>a. case data a of None \<Rightarrow> False
                                     | Some d \<Rightarrow> includesStr d ''v=spf1'')
                 [\<lparr>data = Some ''v=spf1 -all''\<rparr>, \<lparr>data = Some ''v=spf1 +all''\<rparr>]) \<and>
   parseSPFTree twoRecordsDns ''example.com'' 0 {} freshContext [] =
     (None, \<lparr>voidLookups = 0, warnings = [], errors = [MultipleSPFRecords ''example.com'']\<rparr>,
      [''example.com''])"
  using multiple_spf_records_rejected
    [of twoRecordsDns "''example.com''"
      "\<lparr>Status = 0, Answer = Some [\<lparr>data = Some ''v=spf1 -all''\<rparr>, \<lparr>data = Some ''v=spf1 +all''\<rparr>]\<rparr>"
      "[\<lparr>data = Some ''v=spf1 -all''\<rparr>, \<lparr>data = Some ''v=spf1 +all''\<rparr>]"
      0 "{}" freshContext "[]"]
  by (simp add: twoRecordsDns_def freshContext_def)

section \<open>Tokens after all\<close>

text \<open>
  C5. Once the flag \<^verbatim>\<open>allFound\<close> is set, the loop over the remaining tokens changes
  nothing but the warnings: children, DNS-lookup count, netblocks, errors, void-lookup
  count and the log of requests stay as they are, and each remaining token adds exactly one
  warning that it is ignored after all, in the order of the tokens. The flag is set by a
  token that matches the pattern of all while the flag is not set; that token adds its
  child and nothing else.
\<close>

theorem tokens_after_all_ignored:
  "(allFound st \<longrightarrow>
      mechLoop dns domain depth visited ms i st =
        st\<lparr>shared := (shared st)\<lparr>warnings := warnings (shared st) @
                   map (\<lambda>m. IgnoredAfterAll (trim m) domain) ms\<rparr>\<rparr>) \<and>
   (\<not> allFound st \<and> matchAll (trim m) \<longrightarrow>
      mechLoop dns domain depth visited (m # ms) i st =
        st\<lparr>allFound := True,
           children := children st @ [All (trim m) (allVerdict (trim m)) i],
           shared := (shared st)\<lparr>warnings := warnings (shared st) @
                   map (\<lambda>m. IgnoredAfterAll (trim m) domain) ms\<rparr>\<rparr>)"
proof (intro conjI impI)
  assume "allFound st"
  then show "mechLoop dns domain depth visited ms i st =
        st\<lparr>shared := (shared st)\<lparr>warnings := warnings (shared st) @
                   map (\<lambda>m. IgnoredAfterAll (trim m) domain) ms\<rparr>\<rparr>"
    by (rule mechLoop_after_all)
next
  assume a: "\<not> allFound st \<and> matchAll (trim m)"
  let ?st1 = "st\<lparr>allFound := True,
                 children := children st @ [All (trim m) (allVerdict (trim m)) i]\<rparr>"
  have "mechLoop dns domain depth visited (m # ms) i st =
          mechLoop dns domain depth visited ms (i + 1) ?st1"
    using a by (simp add: mechLoop_Cons mechStep_all)
  also have "\<dots> = ?st1\<lparr>shared := (shared ?st1)\<lparr>warnings := warnings (shared ?st1) @
                   map (\<lambda>m. IgnoredAfterAll (trim m) domain) ms\<rparr>\<rparr>"
    by (rule mechLoop_after_all) simp
  finally show "mechLoop dns domain depth visited (m # ms) i st =
        st\<lparr>allFound := True,
           children := children st @ [All (trim m) (allVerdict (trim m)) i],
           shared := (shared st)\<lparr>warnings := warnings (shared st) @
                   map (\<lambda>m. IgnoredAfterAll (trim m) domain) ms\<rparr>\<rparr>"
    by simp
qed

theorem tokens_after_all_ignored_witness:
  "matchAll (trim ''-all'') \<and>
   mechLoop failingDns ''example.com'' 0 {''example.com''}
     [''-all'', ''ip4:192.0.2.1'', ''include:other.example'', ''mx'', ''redirect=r.example'']
     1 (emptyState freshContext [''example.com'']) =
     \<lparr>children = [All ''-all'' Fail 1], dnsLookups = 0, netblocks = [], allFound = True,
      shared = \<lparr>voidLookups = 0,
                warnings = [IgnoredAfterAll ''ip4:192.0.2.1'' ''example.com'',
                            IgnoredAfterAll ''include:other.example'' ''example.com'',
                            IgnoredAfterAll ''mx'' ''example.com'',
                            IgnoredAfterAll ''redirect=r.example'' ''example.com''],
                errors = []\<rparr>,
      requests = [''example.com'']\<rparr> \<and>
   mechLoop failingDns ''example.com'' 0 {''example.com''} [''a'', ''ip4:192.0.2.1''] 2
     ((emptyState freshContext [''example.com''])\<lparr>allFound := True\<rparr>) =
     \<lparr>children = [], dnsLookups = 0, netblocks = [], allFound = True,
      shared = \<lparr>voidLookups = 0,
                warnings = [IgnoredAfterAll ''a'' ''example.com'',
                            IgnoredAfterAll ''ip4:192.0.2.1'' ''example.com''],
                errors = []\<rparr>,
      requests = [''example.com'']\<rparr>"
  using tokens_after_all_ignored
    [of "emptyState freshContext [''example.com'']" failingDns "''example.com''" 0
      "{''example.com''}"
      "[''ip4:192.0.2.1'', ''include:other.example'', ''mx'', ''redirect=r.example'']" 1
      "''-all''"]
    tokens_after_all_ignored
    [of "(emptyState freshContext [''example.com''])\<lparr>allFound := True\<rparr>" failingDns
      "''example.com''" 0 "{''example.com''}" "[''a'', ''ip4:192.0.2.1'']" 2]
  by (simp add: emptyState_def freshContext_def matchAll_cases trim_def isWhiteSpace_def
      allVerdict_def)

section \<open>The total of IPv4 addresses\<close>

text \<open>
  C6, as the code has it. When checkSPF shows a result, the netblocks of the root are
  exactly the values of the ip4 children of the whole tree, in the order of the tree (ip6
  children give none), each holding a slash; the netblock count is the number of distinct netblocks; and
  the IPv4 total is the sum in double precision, from 0 and in the order of first
  occurrence, of \<^verbatim>\<open>Math.pow(2, 32 - prefixLength)\<close> over the distinct netblocks. The total
  is the exact sum of 2 to the power 32 minus the prefix length over the set of distinct
  netblocks when every prefix length is from 0 to 32 and that sum is below \<open>2^53\<close>; it is
  NaN when some prefix length is no number. In the loop, a token of kind ip4 appends its
  value, with the suffix \<^verbatim>\<open>/32\<close> when the value has no slash, to the netblocks and to the
  children and changes nothing else; a token of kind ip6 appends a child and no netblock.
  For the record \<^verbatim>\<open>v=spf1 ip4:192.0.2.0/24 ip4:192.0.2.1\<close> the netblocks are
  \<^verbatim>\<open>192.0.2.0/24\<close> and \<^verbatim>\<open>192.0.2.1/32\<close>, with 256 and 1 addresses, and the total is 257.
  The total is 257 as well for a record with the block \<^verbatim>\<open>192.0.2.0/24\<close>, an include of a
  record with the same block and an ip6 block, and a redirect to a record with the address
  \<^verbatim>\<open>192.0.2.1\<close>: the netblocks of the included and of the redirected record are those of
  the root too, and the block that occurs twice is counted once.
\<close>

theorem total_ipv4_addresses:
  "(checkSPF dns input = ShowResult r \<longrightarrow>
      netblocksOk (children (tree r)) (netblocks (tree r)) \<and>
      netblockCount r = card (set (netblocks (tree r))) \<and>
      ipv4Count r =
        foldl (\<lambda>sum nb. jsAdd sum (calculateIPv4Count nb)) (Num 0) (uniq (netblocks (tree r))) \<and>
      ((\<forall>nb\<in>set (netblocks (tree r)). \<exists>n. prefixLength nb = Some n \<and> 0 \<le> n \<and> n \<le> 32) \<and>
       (\<Sum>nb\<in>set (netblocks (tree r)). addresses nb) < 2 ^ 53 \<longrightarrow>
         ipv4Count r = Num (\<Sum>nb\<in>set (netblocks (tree r)). addresses nb)) \<and>
      ((\<exists>nb\<in>set (netblocks (tree r)). prefixLength nb = None) \<longrightarrow> ipv4Count r = NaN)) \<and>
   (\<not> allFound st \<and> kindOf (trim m) = KIp4 \<longrightarrow>
      mechLoop dns domain depth visited (m # ms) i st =
        mechLoop dns domain depth visited ms (i + 1)
          (let ip = stripMechanism ''ip4:'' (trim m);
               cidr = (if includesStr ip ''/'' then ip else ip @ ''/32'')
           in st\<lparr>netblocks := netblocks st @ [cidr],
                 children := children st @
                   [Ip4 (shownMechanism (trim m)) cidr (calculateIPv4Count cidr)]\<rparr>)) \<and>
   (\<not> allFound st \<and> kindOf (trim m) = KIp6 \<longrightarrow>
      mechLoop dns domain depth visited (m # ms) i st =
        mechLoop dns domain depth visited ms (i + 1)
          (st\<lparr>children := children st @
                 [Ip6 (shownMechanism (trim m)) (stripMechanism ''ip6:'' (trim m))]\<rparr>)) \<and>
   (case checkSPF examplePair ''example.com'' of
      ShowError e \<Rightarrow> False
    | ShowResult r \<Rightarrow>
        netblocks (tree r) = [''192.0.2.0/24'', ''192.0.2.1/32''] \<and>
        map addresses (netblocks (tree r)) = [256, 1] \<and>
        ipv4Count r = Num 257) \<and>
   checkSPF treeDns ''example.com'' = ShowResult treeReport \<and>
   (case checkSPF badPrefixDns ''example.com'' of
      ShowError e \<Rightarrow> False
    | ShowResult r \<Rightarrow>
        netblocks (tree r) = [''192.0.2.0/24'', ''3.3.3.3/x''] \<and>
        prefixLength ''3.3.3.3/x'' = None \<and> ipv4Count r = NaN)"
proof (intro conjI impI)
  assume a: "checkSPF dns input = ShowResult r"
  then obtain n where n: "fst (parseSPFTree dns (trim input) 0 {} freshContext []) = Some n"
    and r: "tree r = n" "netblockCount r = length (uniq (netblocks n))"
      "ipv4Count r = foldl (\<lambda>sum nb. jsAdd sum (calculateIPv4Count nb)) (Num 0) (uniq (netblocks n))"
    by (auto simp: checkSPF_def Let_def split: if_splits option.splits)
  show "netblocksOk (children (tree r)) (netblocks (tree r))"
    using netblocks_are_ip4_values n r(1) by blast
  show "netblockCount r = card (set (netblocks (tree r)))"
    using distinct_card [OF uniq_distinct, of "netblocks n"] by (simp add: r)
  show f: "ipv4Count r =
        foldl (\<lambda>sum nb. jsAdd sum (calculateIPv4Count nb)) (Num 0) (uniq (netblocks (tree r)))"
    by (simp add: r)
  have s: "sum_list (map addresses (uniq (netblocks (tree r)))) =
             (\<Sum>nb\<in>set (netblocks (tree r)). addresses nb)"
    using sum_list_distinct_conv_sum_set [OF uniq_distinct, of addresses "netblocks (tree r)"]
    by simp
  {
    assume b: "(\<forall>nb\<in>set (netblocks (tree r)). \<exists>n. prefixLength nb = Some n \<and> 0 \<le> n \<and> n \<le> 32) \<and>
       (\<Sum>nb\<in>set (netblocks (tree r)). addresses nb) < 2 ^ 53"
    have "foldl (\<lambda>sum nb. jsAdd sum (calculateIPv4Count nb)) (Num (of_nat 0))
            (uniq (netblocks (tree r))) =
          Num (of_nat 0 + sum_list (map addresses (uniq (netblocks (tree r)))))"
      using b by (intro foldl_jsAdd_exact) (simp_all add: s)
    then show "ipv4Count r = Num (\<Sum>nb\<in>set (netblocks (tree r)). addresses nb)"
      by (simp add: f s)
  }
  {
    assume "\<exists>nb\<in>set (netblocks (tree r)). prefixLength nb = None"
    then have "\<exists>nb\<in>set (uniq (netblocks (tree r))). prefixLength nb = None" by simp
    then show "ipv4Count r = NaN"
      unfolding f by (rule foldl_jsAdd_some_NaN)
  }
next
  assume "\<not> allFound st \<and> kindOf (trim m) = KIp4"
  then show "mechLoop dns domain depth visited (m # ms) i st =
        mechLoop dns domain depth visited ms (i + 1)
          (let ip = stripMechanism ''ip4:'' (trim m);
               cidr = (if includesStr ip ''/'' then ip else ip @ ''/32'')
           in st\<lparr>netblocks := netblocks st @ [cidr],
                 children := children st @
                   [Ip4 (shownMechanism (trim m)) cidr (calculateIPv4Count cidr)]\<rparr>)"
    by (simp add: mechLoop_Cons mechStep_leaf leafStep_kinds kindOf_leaf_iff)
next
  assume "\<not> allFound st \<and> kindOf (trim m) = KIp6"
  then show "mechLoop dns domain depth visited (m # ms) i st =
        mechLoop dns domain depth visited ms (i + 1)
          (st\<lparr>children := children st @
                 [Ip6 (shownMechanism (trim m)) (stripMechanism ''ip6:'' (trim m))]\<rparr>)"
    by (simp add: mechLoop_Cons mechStep_leaf leafStep_kinds kindOf_leaf_iff)
next
  show "case checkSPF examplePair ''example.com'' of
      ShowError e \<Rightarrow> False
    | ShowResult r \<Rightarrow>
        netblocks (tree r) = [''192.0.2.0/24'', ''192.0.2.1/32''] \<and>
        map addresses (netblocks (tree r)) = [256, 1] \<and>
        ipv4Count r = Num 257"
    by (simp add: examplePair_run examplePairReport_def examplePair_addresses)
  show "checkSPF treeDns ''example.com'' = ShowResult treeReport"
    by (rule treeDns_run)
  show "case checkSPF badPrefixDns ''example.com'' of
      ShowError e \<Rightarrow> False
    | ShowResult r \<Rightarrow>
        netblocks (tree r) = [''192.0.2.0/24'', ''3.3.3.3/x''] \<and>
        prefixLength ''3.3.3.3/x'' = None \<and> ipv4Count r = NaN"
    by (rule badPrefixDns_run)
qed

theorem total_ipv4_addresses_witness:
  "checkSPF examplePair ''example.com'' = ShowResult examplePairReport \<and>
   netblocksOk (children (tree examplePairReport)) (netblocks (tree examplePairReport)) \<and>
   list_all (\<lambda>nb. prefixLength nb \<in> {Some 24, Some 32}) (netblocks (tree examplePairReport)) \<and>
   (\<Sum>nb\<in>set (netblocks (tree examplePairReport)). addresses nb) = 257 \<and>
   ipv4Count examplePairReport =
     Num (\<Sum>nb\<in>set (netblocks (tree examplePairReport)). addresses nb) \<and>
   checkSPF treeDns ''example.com'' = ShowResult treeReport \<and>
   set (netblocks (tree treeReport)) = {''192.0.2.0/24'', ''192.0.2.1/32''} \<and>
   netblockCount treeReport = card (set (netblocks (tree treeReport))) \<and>
   ipv4Count treeReport = Num (\<Sum>nb\<in>set (netblocks (tree treeReport)). addresses nb) \<and>
   kindOf (trim ''ip4:192.0.2.1'') = KIp4 \<and>
   mechLoop examplePair ''example.com'' 0 {''example.com''} [''ip4:192.0.2.1''] 1
     (emptyState freshContext [''example.com'']) =
     \<lparr>children = [Ip4 ''+ip4:192.0.2.1'' ''192.0.2.1/32'' (Num 1)], dnsLookups = 0,
      netblocks = [''192.0.2.1/32''], allFound = False,
      shared = \<lparr>voidLookups = 0, warnings = [], errors = []\<rparr>,
      requests = [''example.com'']\<rparr> \<and>
   kindOf (trim ''ip6:2001:db8::/32'') = KIp6 \<and>
   mechLoop treeDns ''example.com'' 0 {''example.com''} [''ip6:2001:db8::/32''] 1
     (emptyState freshContext [''example.com'']) =
     \<lparr>children = [Ip6 ''+ip6:2001:db8::/32'' ''2001:db8::/32''], dnsLookups = 0,
      netblocks = [], allFound = False,
      shared = \<lparr>voidLookups = 0, warnings = [], errors = []\<rparr>,
      requests = [''example.com'']\<rparr>"
proof -
  have nbs: "netblocks (tree examplePairReport) = [''192.0.2.0/24'', ''192.0.2.1/32'']"
    "netblocks (tree treeReport) = [''192.0.2.0/24'', ''192.0.2.0/24'', ''192.0.2.1/32'']"
    by (simp_all add: examplePairReport_def treeReport_def)
  have s: "(\<Sum>nb\<in>set (netblocks (tree examplePairReport)). addresses nb) = 257"
    "(\<Sum>nb\<in>set (netblocks (tree treeReport)). addresses nb) = 257"
    by (simp_all add: nbs examplePair_addresses)
  have p: "\<forall>nb\<in>set (netblocks (tree examplePairReport)).
             \<exists>n. prefixLength nb = Some n \<and> 0 \<le> n \<and> n \<le> 32"
    "\<forall>nb\<in>set (netblocks (tree treeReport)).
             \<exists>n. prefixLength nb = Some n \<and> 0 \<le> n \<and> n \<le> 32"
    by (simp_all add: nbs examplePair_prefixes)
  have l: "list_all (\<lambda>nb. prefixLength nb \<in> {Some 24, Some 32})
             (netblocks (tree examplePairReport))"
    by (simp add: nbs examplePair_prefixes)
  have run: "checkSPF examplePair ''example.com'' = ShowResult examplePairReport"
    by (rule examplePair_run)
  have run2: "checkSPF treeDns ''example.com'' = ShowResult treeReport"
    by (rule treeDns_run)
  have k: "kindOf (trim ''ip4:192.0.2.1'') = KIp4" "kindOf (trim ''ip6:2001:db8::/32'') = KIp6"
    by code_simp+
  have e: "trim ''ip4:192.0.2.1'' = ''ip4:192.0.2.1''"
    "trim ''ip6:2001:db8::/32'' = ''ip6:2001:db8::/32''"
    "stripMechanism ''ip4:'' ''ip4:192.0.2.1'' = ''192.0.2.1''"
    "stripMechanism ''ip6:'' ''ip6:2001:db8::/32'' = ''2001:db8::/32''"
    "includesStr ''192.0.2.1'' ''/'' = False"
    "shownMechanism ''ip4:192.0.2.1'' = ''+ip4:192.0.2.1''"
    "shownMechanism ''ip6:2001:db8::/32'' = ''+ip6:2001:db8::/32''"
    "calculateIPv4Count ''192.0.2.1/32'' = Num 1"
    by code_simp+
  note t1 = total_ipv4_addresses
    [of examplePair "''example.com''" examplePairReport "emptyState freshContext [''example.com'']"
      "''ip4:192.0.2.1''" "''example.com''" 0 "{''example.com''}" "[]" 1]
  note t2 = total_ipv4_addresses
    [of treeDns "''example.com''" treeReport "emptyState freshContext [''example.com'']"
      "''ip6:2001:db8::/32''" "''example.com''" 0 "{''example.com''}" "[]" 1]
  from t1 run have a:
    "netblocksOk (children (tree examplePairReport)) (netblocks (tree examplePairReport))"
    by blast
  have lt: "(\<Sum>nb\<in>set (netblocks (tree examplePairReport)). addresses nb) < 2 ^ 53"
    "(\<Sum>nb\<in>set (netblocks (tree treeReport)). addresses nb) < 2 ^ 53"
    by (simp_all add: s)
  from t1 run p(1) lt(1) have b: "ipv4Count examplePairReport =
     Num (\<Sum>nb\<in>set (netblocks (tree examplePairReport)). addresses nb)"
    by blast
  from t2 run2 have c: "netblockCount treeReport = card (set (netblocks (tree treeReport)))"
    by blast
  from t2 run2 p(2) lt(2) have d: "ipv4Count treeReport =
     Num (\<Sum>nb\<in>set (netblocks (tree treeReport)). addresses nb)"
    by blast
  have st: "\<not> allFound (emptyState freshContext [''example.com''])"
    by (simp add: emptyState_def)
  from t1 st k(1) have f: "mechLoop examplePair ''example.com'' 0 {''example.com''} [''ip4:192.0.2.1''] 1
     (emptyState freshContext [''example.com'']) =
     \<lparr>children = [Ip4 ''+ip4:192.0.2.1'' ''192.0.2.1/32'' (Num 1)], dnsLookups = 0,
      netblocks = [''192.0.2.1/32''], allFound = False,
      shared = \<lparr>voidLookups = 0, warnings = [], errors = []\<rparr>,
      requests = [''example.com'']\<rparr>"
    by (simp add: e emptyState_def freshContext_def Let_def)
  from t2 st k(2) have g: "mechLoop treeDns ''example.com'' 0 {''example.com''} [''ip6:2001:db8::/32''] 1
     (emptyState freshContext [''example.com'']) =
     \<lparr>children = [Ip6 ''+ip6:2001:db8::/32'' ''2001:db8::/32''], dnsLookups = 0,
      netblocks = [], allFound = False,
      shared = \<lparr>voidLookups = 0, warnings = [], errors = []\<rparr>,
      requests = [''example.com'']\<rparr>"
    by (simp add: e emptyState_def freshContext_def)
  have h: "set (netblocks (tree treeReport)) = {''192.0.2.0/24'', ''192.0.2.1/32''}"
    by (simp add: nbs)
  from run a l s(1) b run2 h c d k f g show ?thesis by blast
qed

text \<open>
  C6 as the specification states it fails: the total is not always the sum of 2 to the
  power 32 minus the prefix length over the distinct netblocks. The prefix length is
  whatever \<^verbatim>\<open>parseInt\<close> reads behind the slash, and the total is a sum of doubles. For
  the record \<^verbatim>\<open>v=spf1 ip4:1.1.1.1/0 ip4:2.2.2.2/62\<close> the netblocks are \<^verbatim>\<open>1.1.1.1/0\<close> and
  \<^verbatim>\<open>2.2.2.2/62\<close>, with prefix lengths 0 and 62; the sum of the powers is
  \<open>2^32 + 2^-30\<close>, and the total shown is 4294967296.
\<close>

theorem ipv4_total_is_rounded:
  "checkSPF roundingDns ''example.com'' = ShowResult roundingReport \<and>
   netblocks (tree roundingReport) = [''1.1.1.1/0'', ''2.2.2.2/62''] \<and>
   prefixLength ''1.1.1.1/0'' = Some 0 \<and> prefixLength ''2.2.2.2/62'' = Some 62 \<and>
   (\<Sum>nb\<in>set (netblocks (tree roundingReport)). addresses nb) = 4294967296 + 1 / 1073741824 \<and>
   ipv4Count roundingReport = Num 4294967296 \<and>
   ipv4Count roundingReport \<noteq> Num (\<Sum>nb\<in>set (netblocks (tree roundingReport)). addresses nb)"
proof -
  have nb: "netblocks (tree roundingReport) = [''1.1.1.1/0'', ''2.2.2.2/62'']"
    and c: "ipv4Count roundingReport = Num 4294967296"
    by (simp_all add: roundingReport_def)
  have s: "(\<Sum>nb\<in>set (netblocks (tree roundingReport)). addresses nb) = 4294967296 + 1 / 1073741824"
    by (simp add: nb roundingDns_addresses)
  show ?thesis
    using roundingDns_run nb s c roundingDns_addresses(3,4) by simp
qed

section \<open>The depth and cycle guard\<close>

text \<open>
  C2. A call of parseSPFTree with a depth above 10, or for a domain that is in the visited
  set of its branch, appends the error for maximal depth or circular reference to the
  shared context, returns no node and leaves the log of requests as it was: no lookup is
  made. parseSPFTree is a total function for every resolver (its termination is proved with
  the definition, by the depth that remains), and the recursion is bounded: a node is only
  returned at a depth of at most 10, and includes and redirects are nested in it at most 10
  minus that depth deep. On the chain of 12 nested includes the run ends with the one error
  for \<^verbatim>\<open>d11\<close>, the domain reached at depth 11, after the 11 requests for \<^verbatim>\<open>d0\<close> to
  \<^verbatim>\<open>d10\<close>; the root counts 11 DNS lookups and its tree is nested 10 deep.
\<close>

theorem depth_and_cycle_guard:
  "(depth > 10 \<or> domain \<in> visited \<longrightarrow>
      parseSPFTree dns domain depth visited ctx reqs =
        (None, ctx\<lparr>errors := errors ctx @ [MaxDepthOrCycle domain]\<rparr>, reqs)) \<and>
   (fst (parseSPFTree dns domain depth visited ctx reqs) = Some n \<longrightarrow>
      depth \<le> 10 \<and> nesting (children n) \<le> 10 - depth) \<and>
   snd (parseSPFTree chainDns ''d0'' 0 {} freshContext []) =
     (\<lparr>voidLookups = 0, warnings = [], errors = [MaxDepthOrCycle ''d11'']\<rparr>,
      [''d0'', ''d1'', ''d2'', ''d3'', ''d4'', ''d5'', ''d6'', ''d7'', ''d8'', ''d9'', ''d10'']) \<and>
   map_option dnsLookups (fst (parseSPFTree chainDns ''d0'' 0 {} freshContext [])) = Some 11 \<and>
   map_option (\<lambda>n. nesting (children n))
     (fst (parseSPFTree chainDns ''d0'' 0 {} freshContext [])) = Some 10"
proof (intro conjI impI)
  assume "depth > 10 \<or> domain \<in> visited"
  then show "parseSPFTree dns domain depth visited ctx reqs =
        (None, ctx\<lparr>errors := errors ctx @ [MaxDepthOrCycle domain]\<rparr>, reqs)"
    by (simp add: parseSPFTree_guard pushError_def)
next
  assume n: "fst (parseSPFTree dns domain depth visited ctx reqs) = Some n"
  with nesting_bounded [of dns depth] show "depth \<le> 10" by blast
  from n nesting_bounded [of dns depth] show "nesting (children n) \<le> 10 - depth" by blast
next
  show "snd (parseSPFTree chainDns ''d0'' 0 {} freshContext []) =
     (\<lparr>voidLookups = 0, warnings = [], errors = [MaxDepthOrCycle ''d11'']\<rparr>,
      [''d0'', ''d1'', ''d2'', ''d3'', ''d4'', ''d5'', ''d6'', ''d7'', ''d8'', ''d9'', ''d10''])"
    using chain_run by simp
  show "map_option dnsLookups (fst (parseSPFTree chainDns ''d0'' 0 {} freshContext [])) = Some 11"
    using chain_run by simp
  show "map_option (\<lambda>n. nesting (children n))
     (fst (parseSPFTree chainDns ''d0'' 0 {} freshContext [])) = Some 10"
    using chain_run by simp
qed

theorem depth_and_cycle_guard_witness:
  "parseSPFTree chainDns ''d11'' 11 {''d0''} freshContext [''d0''] =
     (None, \<lparr>voidLookups = 0, warnings = [], errors = [MaxDepthOrCycle ''d11'']\<rparr>, [''d0'']) \<and>
   parseSPFTree chainDns ''d0'' 1 {''d0''} freshContext [''d0''] =
     (None, \<lparr>voidLookups = 0, warnings = [], errors = [MaxDepthOrCycle ''d0'']\<rparr>, [''d0'']) \<and>
   fst (parseSPFTree examplePair ''example.com'' 0 {} freshContext []) =
     Some (tree examplePairReport) \<and>
   nesting (children (tree examplePairReport)) \<le> 10 - 0"
  using depth_and_cycle_guard
      [of 11 "''d11''" "{''d0''}" chainDns freshContext "[''d0'']" "tree examplePairReport"]
    depth_and_cycle_guard
      [of 1 "''d0''" "{''d0''}" chainDns freshContext "[''d0'']" "tree examplePairReport"]
    depth_and_cycle_guard
      [of 0 "''example.com''" "{}" examplePair freshContext "[]" "tree examplePairReport"]
    examplePair_tree
  by (simp add: freshContext_def)

section \<open>The void-lookup budget\<close>

text \<open>
  C3. The counter of a fresh context is 0. Over any run of parseSPFTree, the requests made
  and the errors recorded are appended to the log and to the shared errors; the counter
  grows by exactly the number of requests of the run whose answer is classified as NXDOMAIN
  or as no answer, and the void-limit errors appended are exactly one for each such request
  that brings the counter above 2, naming the counter reached, with no deduplication. A
  request is void exactly when the body has status 3, or a status other than 2 together
  with a status other than 0 or a missing or empty answer list; SERVFAIL (status 2), a
  response that is not ok and an exception are never void. In the example the lookups of
  \<^verbatim>\<open>n1\<close>, \<^verbatim>\<open>n2\<close>, \<^verbatim>\<open>n3\<close> and \<^verbatim>\<open>n4\<close> are void, those of \<^verbatim>\<open>s1\<close>, \<^verbatim>\<open>t1\<close> and
  \<^verbatim>\<open>x1\<close> are not, the counter ends at 4 and the limit error is recorded at 3 and again
  at 4.
\<close>

theorem void_lookup_budget:
  "voidLookups freshContext = 0 \<and>
   (let r = parseSPFTree dns domain depth visited ctx reqs;
        issued = drop (length reqs) (snd (snd r));
        added = drop (length (errors ctx)) (errors (fst (snd r)))
    in take (length reqs) (snd (snd r)) = reqs \<and>
       take (length (errors ctx)) (errors (fst (snd r))) = errors ctx \<and>
       voidLookups (fst (snd r)) = voidLookups ctx + length (filter (voidQuery dns) issued) \<and>
       filter isBudgetError added =
         budgetErrors (voidLookups ctx) (filter (voidQuery dns) issued)) \<and>
   voidQuery dns q =
     (case dns q of
        Threw \<Rightarrow> False
      | NotOk \<Rightarrow> False
      | Body b \<Rightarrow>
          Status b = 3 \<or>
          (Status b \<noteq> 2 \<and> (Status b \<noteq> 0 \<or> Answer b = None \<or> Answer b = Some []))) \<and>
   snd (parseSPFTree mixedDns ''example.com'' 0 {} freshContext []) =
     (\<lparr>voidLookups = 4,
       warnings = [DomainNotFound ''n1'', DomainNotFound ''n3''],
       errors = [VoidLimitExceeded 3 ''n3'', VoidLimitExceeded 4 ''n4'']\<rparr>,
      [''example.com'', ''n1'', ''s1'', ''t1'', ''x1'', ''n2'', ''n3'', ''n4''])"
proof -
  obtain new newE where e:
    "snd (snd (parseSPFTree dns domain depth visited ctx reqs)) = reqs @ new"
    "errors (fst (snd (parseSPFTree dns domain depth visited ctx reqs))) = errors ctx @ newE"
    "voidLookups (fst (snd (parseSPFTree dns domain depth visited ctx reqs))) =
       voidLookups ctx + length (filter (voidQuery dns) new)"
    "filter isBudgetError newE = budgetErrors (voidLookups ctx) (filter (voidQuery dns) new)"
    using parseSPFTree_extends [of dns depth] unfolding extends_def by fastforce
  have "let r = parseSPFTree dns domain depth visited ctx reqs;
        issued = drop (length reqs) (snd (snd r));
        added = drop (length (errors ctx)) (errors (fst (snd r)))
    in take (length reqs) (snd (snd r)) = reqs \<and>
       take (length (errors ctx)) (errors (fst (snd r))) = errors ctx \<and>
       voidLookups (fst (snd r)) = voidLookups ctx + length (filter (voidQuery dns) issued) \<and>
       filter isBudgetError added =
         budgetErrors (voidLookups ctx) (filter (voidQuery dns) issued)"
    by (simp add: Let_def e)
  then show ?thesis
    using voidQuery_response [of dns q] mixedDns_run by (simp add: freshContext_def)
qed

theorem void_lookup_budget_witness:
  "voidLookups (fst (snd (parseSPFTree mixedDns ''example.com'' 0 {} freshContext []))) =
     length (filter (voidQuery mixedDns)
       (snd (snd (parseSPFTree mixedDns ''example.com'' 0 {} freshContext [])))) \<and>
   filter isBudgetError
       (errors (fst (snd (parseSPFTree mixedDns ''example.com'' 0 {} freshContext [])))) =
     budgetErrors 0 (filter (voidQuery mixedDns)
       (snd (snd (parseSPFTree mixedDns ''example.com'' 0 {} freshContext [])))) \<and>
   \<not> voidQuery mixedDns ''s1'' \<and> voidQuery mixedDns ''n2''"
  using mixedDns_run
    void_lookup_budget [of mixedDns "''example.com''" 0 "{}" freshContext "[]" "''s1''"]
    void_lookup_budget [of mixedDns "''example.com''" 0 "{}" freshContext "[]" "''n2''"]
  by (simp add: Let_def freshContext_def mixedDns_def)

section \<open>The visited set of a branch and the shared context\<close>

text \<open>
  C1. The visited set is an argument of each call only, the context goes through all the
  calls. A call for a domain that is in the visited set of its branch is rejected: the
  error is appended to the shared context, no node is returned and no request is made. In
  a node that is returned, no include or redirect leads to the domain of the node, to a
  domain visited before it, or to a domain further up on the same path of the tree. The
  node returned is the state in which the loop ends when it is run on the tokens of the
  record with the visited set of the call and the domain of the call, and with the context
  as the lookup and the checks of the record left it. Whatever tokens come before an
  include or a redirect in the loop, the call for it is made with the visited set that the
  loop was given, unchanged, with the depth plus one and with the context and the log as
  the tokens before it left them; its result is added and the loop goes on. What a
  call returns, apart from the diagnostics, does not depend on the context and the log it
  is given, so that a domain is resolved in the same way whatever the branches before it
  have met; and the diagnostics of a node are the shared context as the whole call left
  it. In the examples a domain that includes itself and a domain included back by the
  domain it includes get the error and no child for the include that closes the cycle,
  while the domain that both includes of a root lead to is resolved in both branches, with
  two requests and no error, and so is a domain that one record includes twice.
\<close>

theorem branch_local_visited_set:
  "(domain \<in> visited \<longrightarrow>
      parseSPFTree dns domain depth visited ctx reqs =
        (None, ctx\<lparr>errors := errors ctx @ [MaxDepthOrCycle domain]\<rparr>, reqs)) \<and>
   (fst (parseSPFTree dns domain depth visited ctx reqs) = Some n \<longrightarrow>
      domain \<notin> visited \<and>
      (\<forall>c\<in>set (children n). pathDistinct (insert domain visited) c) \<and>
      diagnostics n = fst (snd (parseSPFTree dns domain depth visited ctx reqs))) \<and>
   (fst (parseSPFTree dns domain depth visited ctx reqs) = Some n \<longrightarrow>
      (let st = mechLoop dns domain depth (insert domain visited)
                  (mechanismsOf (recordText n)) 0
                  (emptyState
                     (shapeChecks domain (recordText n)
                        (trackVoid domain (classify (dns domain)) ctx))
                     (reqs @ [domain]))
       in n = \<lparr>children = children st, dnsLookups = dnsLookups st, netblocks = netblocks st,
               nodeDomain = domain, recordText = recordText n, diagnostics = shared st\<rparr>)) \<and>
   (\<not> allFound (mechLoop dns domain depth visited pre i st) \<and> matchInclude (trim m) \<longrightarrow>
      mechLoop dns domain depth visited (pre @ m # ms) i st =
        (let st' = mechLoop dns domain depth visited pre i st;
             r = parseSPFTree dns (stripMechanism ''include:'' (trim m)) (depth + 1) visited
                   (shared st') (requests st')
         in mechLoop dns domain depth visited ms (i + length pre + 1)
              (addInclude (trim m) (stripMechanism ''include:'' (trim m)) (fst r)
                 (returned r st')))) \<and>
   (\<not> allFound (mechLoop dns domain depth visited pre i st) \<and> \<not> matchInclude (trim m) \<and>
    startsWith (trim m) ''redirect='' \<longrightarrow>
      mechLoop dns domain depth visited (pre @ m # ms) i st =
        (let st' = mechLoop dns domain depth visited pre i st;
             r = parseSPFTree dns (drop 9 (trim m)) (depth + 1) visited
                   (shared st') (requests st')
         in mechLoop dns domain depth visited ms (i + length pre + 1)
              (addRedirect (trim m) (drop 9 (trim m)) (fst r) (returned r st')))) \<and>
   map_option shape (fst (parseSPFTree dns domain depth visited ctx reqs)) =
     map_option shape (fst (parseSPFTree dns domain depth visited ctx' reqs')) \<and>
   parseSPFTree cycleDns ''self'' 0 {} freshContext [] =
     (Some selfNode,
      \<lparr>voidLookups = 0, warnings = [], errors = [MaxDepthOrCycle ''self'']\<rparr>, [''self'']) \<and>
   parseSPFTree cycleDns ''hop1'' 0 {} freshContext [] =
     (Some hopNode,
      \<lparr>voidLookups = 0, warnings = [], errors = [MaxDepthOrCycle ''hop1'']\<rparr>,
      [''hop1'', ''hop2'']) \<and>
   parseSPFTree cycleDns ''root'' 0 {} freshContext [] =
     (Some siblingNode, \<lparr>voidLookups = 0, warnings = [], errors = []\<rparr>,
      [''root'', ''b'', ''common'', ''c'', ''common'']) \<and>
   parseSPFTree cycleDns ''twice'' 0 {} freshContext [] =
     (Some twiceNode, \<lparr>voidLookups = 0, warnings = [], errors = []\<rparr>,
      [''twice'', ''common'', ''common''])"
proof (intro conjI impI)
  assume "domain \<in> visited"
  then show "parseSPFTree dns domain depth visited ctx reqs =
        (None, ctx\<lparr>errors := errors ctx @ [MaxDepthOrCycle domain]\<rparr>, reqs)"
    by (simp add: parseSPFTree_guard pushError_def)
next
  assume n: "fst (parseSPFTree dns domain depth visited ctx reqs) = Some n"
  with tree_acyclic [of dns depth] show "domain \<notin> visited" by blast
  from n tree_acyclic [of dns depth]
  show "\<forall>c\<in>set (children n). pathDistinct (insert domain visited) c" by blast
  from n show "diagnostics n = fst (snd (parseSPFTree dns domain depth visited ctx reqs))"
    by (rule diagnostics_result)
next
  assume "fst (parseSPFTree dns domain depth visited ctx reqs) = Some n"
  then show "let st = mechLoop dns domain depth (insert domain visited)
                  (mechanismsOf (recordText n)) 0
                  (emptyState
                     (shapeChecks domain (recordText n)
                        (trackVoid domain (classify (dns domain)) ctx))
                     (reqs @ [domain]))
       in n = \<lparr>children = children st, dnsLookups = dnsLookups st, netblocks = netblocks st,
               nodeDomain = domain, recordText = recordText n, diagnostics = shared st\<rparr>"
    by (rule parseSPFTree_loop)
next
  assume a: "\<not> allFound (mechLoop dns domain depth visited pre i st) \<and> matchInclude (trim m)"
  have "mechLoop dns domain depth visited (pre @ m # ms) i st =
          mechLoop dns domain depth visited ms (i + length pre + 1)
            (mechStep dns domain depth visited m (i + length pre)
               (mechLoop dns domain depth visited pre i st))"
    by (simp only: mechLoop_append mechLoop_Cons)
  also have "mechStep dns domain depth visited m (i + length pre)
               (mechLoop dns domain depth visited pre i st) =
             (let r = parseSPFTree dns (stripMechanism ''include:'' (trim m)) (depth + 1) visited
                  (shared (mechLoop dns domain depth visited pre i st))
                  (requests (mechLoop dns domain depth visited pre i st))
              in addInclude (trim m) (stripMechanism ''include:'' (trim m)) (fst r)
                   (returned r (mechLoop dns domain depth visited pre i st)))"
    using a by (intro mechStep_include) blast+
  finally show "mechLoop dns domain depth visited (pre @ m # ms) i st =
        (let st' = mechLoop dns domain depth visited pre i st;
             r = parseSPFTree dns (stripMechanism ''include:'' (trim m)) (depth + 1) visited
                   (shared st') (requests st')
         in mechLoop dns domain depth visited ms (i + length pre + 1)
              (addInclude (trim m) (stripMechanism ''include:'' (trim m)) (fst r)
                 (returned r st')))"
    by (simp only: Let_def)
next
  assume a: "\<not> allFound (mechLoop dns domain depth visited pre i st) \<and> \<not> matchInclude (trim m) \<and>
    startsWith (trim m) ''redirect=''"
  have "mechLoop dns domain depth visited (pre @ m # ms) i st =
          mechLoop dns domain depth visited ms (i + length pre + 1)
            (mechStep dns domain depth visited m (i + length pre)
               (mechLoop dns domain depth visited pre i st))"
    by (simp only: mechLoop_append mechLoop_Cons)
  also have "mechStep dns domain depth visited m (i + length pre)
               (mechLoop dns domain depth visited pre i st) =
             (let r = parseSPFTree dns (drop 9 (trim m)) (depth + 1) visited
                  (shared (mechLoop dns domain depth visited pre i st))
                  (requests (mechLoop dns domain depth visited pre i st))
              in addRedirect (trim m) (drop 9 (trim m)) (fst r)
                   (returned r (mechLoop dns domain depth visited pre i st)))"
    using a by (intro mechStep_redirect) blast+
  finally show "mechLoop dns domain depth visited (pre @ m # ms) i st =
        (let st' = mechLoop dns domain depth visited pre i st;
             r = parseSPFTree dns (drop 9 (trim m)) (depth + 1) visited
                   (shared st') (requests st')
         in mechLoop dns domain depth visited ms (i + length pre + 1)
              (addRedirect (trim m) (drop 9 (trim m)) (fst r) (returned r st')))"
    by (simp only: Let_def)
next
  show "map_option shape (fst (parseSPFTree dns domain depth visited ctx reqs)) =
     map_option shape (fst (parseSPFTree dns domain depth visited ctx' reqs'))"
    using shape_independent [of dns depth] by blast
qed (rule cycleDns_self cycleDns_hop cycleDns_siblings cycleDns_twice)+

theorem branch_local_visited_set_witness:
  "''self'' \<in> {''self''} \<and>
   parseSPFTree cycleDns ''self'' 1 {''self''} freshContext [''self''] =
     (None, \<lparr>voidLookups = 0, warnings = [], errors = [MaxDepthOrCycle ''self'']\<rparr>, [''self'']) \<and>
   fst (parseSPFTree cycleDns ''root'' 0 {} freshContext []) = Some siblingNode \<and>
   list_all (pathDistinct (insert ''root'' {})) (children siblingNode) \<and>
   fst (parseSPFTree cycleDns ''twice'' 0 {} freshContext []) = Some twiceNode \<and>
   mechanismsOf (recordText twiceNode) =
     [''v=spf1'', ''include:common'', ''include:common'', ''-all''] \<and>
   children twiceNode =
     children (mechLoop cycleDns ''twice'' 0 (insert ''twice'' {})
        (mechanismsOf (recordText twiceNode)) 0
        (emptyState
           (shapeChecks ''twice'' (recordText twiceNode)
              (trackVoid ''twice'' (classify (cycleDns ''twice'')) freshContext))
           ([] @ [''twice'']))) \<and>
   \<not> allFound (mechLoop cycleDns ''twice'' 0 {''twice''} [''v=spf1'', ''include:common''] 0
                 (emptyState freshContext [''twice''])) \<and>
   matchInclude (trim ''include:common'') \<and>
   mechLoop cycleDns ''twice'' 0 {''twice''}
     ([''v=spf1'', ''include:common''] @ ''include:common'' # [''-all'']) 0
     (emptyState freshContext [''twice'']) =
     \<lparr>children =
        [Include ''+include:common'' ''common'' ''v=spf1 ip4:192.0.2.1''
           [Ip4 ''+ip4:192.0.2.1'' ''192.0.2.1/32'' (Num 1)] 1 [''192.0.2.1/32''] ''+'',
         Include ''+include:common'' ''common'' ''v=spf1 ip4:192.0.2.1''
           [Ip4 ''+ip4:192.0.2.1'' ''192.0.2.1/32'' (Num 1)] 1 [''192.0.2.1/32''] ''+'',
         All ''-all'' Fail 3],
      dnsLookups = 2, netblocks = [''192.0.2.1/32'', ''192.0.2.1/32''], allFound = True,
      shared = \<lparr>voidLookups = 0, warnings = [], errors = []\<rparr>,
      requests = [''twice'', ''common'', ''common'']\<rparr> \<and>
   \<not> matchInclude (trim ''redirect=common'') \<and>
   startsWith (trim ''redirect=common'') ''redirect='' \<and>
   mechLoop cycleDns ''twice'' 0 {''twice''}
     ([''v=spf1'', ''include:common''] @ ''redirect=common'' # []) 0
     (emptyState freshContext [''twice'']) =
     \<lparr>children =
        [Include ''+include:common'' ''common'' ''v=spf1 ip4:192.0.2.1''
           [Ip4 ''+ip4:192.0.2.1'' ''192.0.2.1/32'' (Num 1)] 1 [''192.0.2.1/32''] ''+'',
         Redirect ''redirect=common'' ''common'' ''v=spf1 ip4:192.0.2.1''
           [Ip4 ''+ip4:192.0.2.1'' ''192.0.2.1/32'' (Num 1)] 1 [''192.0.2.1/32'']],
      dnsLookups = 2, netblocks = [''192.0.2.1/32'', ''192.0.2.1/32''], allFound = False,
      shared = \<lparr>voidLookups = 0, warnings = [], errors = []\<rparr>,
      requests = [''twice'', ''common'', ''common'']\<rparr>"
proof -
  note t1 = branch_local_visited_set
      [of "''self''" "{''self''}" cycleDns 1 freshContext "[''self'']" siblingNode
        "[''v=spf1'', ''include:common'']" 0 "emptyState freshContext [''twice'']"
        "''include:common''" "[''-all'']" freshContext "[]"]
  note t2 = branch_local_visited_set
      [of "''root''" "{}" cycleDns 0 freshContext "[]" siblingNode
        "[''v=spf1'', ''include:common'']" 0 "emptyState freshContext [''twice'']"
        "''include:common''" "[''-all'']" freshContext "[]"]
  note t3 = branch_local_visited_set
      [of "''twice''" "{}" cycleDns 0 freshContext "[]" twiceNode
        "[''v=spf1'', ''include:common'']" 0 "emptyState freshContext [''twice'']"
        "''include:common''" "[''-all'']" freshContext "[]"]
  note t4 = branch_local_visited_set
      [of "''twice''" "{''twice''}" cycleDns 0 freshContext "[]" twiceNode
        "[''v=spf1'', ''include:common'']" 0 "emptyState freshContext [''twice'']"
        "''include:common''" "[''-all'']" freshContext "[]"]
  note t5 = branch_local_visited_set
      [of "''twice''" "{''twice''}" cycleDns 0 freshContext "[]" twiceNode
        "[''v=spf1'', ''include:common'']" 0 "emptyState freshContext [''twice'']"
        "''redirect=common''" "[]" freshContext "[]"]
  have old: "''self'' \<in> {''self''} \<and>
     parseSPFTree cycleDns ''self'' 1 {''self''} freshContext [''self''] =
       (None, \<lparr>voidLookups = 0, warnings = [], errors = [MaxDepthOrCycle ''self'']\<rparr>, [''self'']) \<and>
     fst (parseSPFTree cycleDns ''root'' 0 {} freshContext []) = Some siblingNode \<and>
     list_all (pathDistinct (insert ''root'' {})) (children siblingNode)"
    using t1 t2 by (simp add: freshContext_def list_all_iff)
  have run: "fst (parseSPFTree cycleDns ''twice'' 0 {} freshContext []) = Some twiceNode"
    using t3 by simp
  have toks: "mechanismsOf (recordText twiceNode) =
     [''v=spf1'', ''include:common'', ''include:common'', ''-all'']"
    unfolding twiceNode_def by code_simp
  have "twiceNode =
     \<lparr>children = children (mechLoop cycleDns ''twice'' 0 (insert ''twice'' {})
        (mechanismsOf (recordText twiceNode)) 0
        (emptyState
           (shapeChecks ''twice'' (recordText twiceNode)
              (trackVoid ''twice'' (classify (cycleDns ''twice'')) freshContext))
           ([] @ [''twice'']))),
      dnsLookups = dnsLookups (mechLoop cycleDns ''twice'' 0 (insert ''twice'' {})
        (mechanismsOf (recordText twiceNode)) 0
        (emptyState
           (shapeChecks ''twice'' (recordText twiceNode)
              (trackVoid ''twice'' (classify (cycleDns ''twice'')) freshContext))
           ([] @ [''twice'']))),
      netblocks = netblocks (mechLoop cycleDns ''twice'' 0 (insert ''twice'' {})
        (mechanismsOf (recordText twiceNode)) 0
        (emptyState
           (shapeChecks ''twice'' (recordText twiceNode)
              (trackVoid ''twice'' (classify (cycleDns ''twice'')) freshContext))
           ([] @ [''twice'']))),
      nodeDomain = ''twice'', recordText = recordText twiceNode,
      diagnostics = shared (mechLoop cycleDns ''twice'' 0 (insert ''twice'' {})
        (mechanismsOf (recordText twiceNode)) 0
        (emptyState
           (shapeChecks ''twice'' (recordText twiceNode)
              (trackVoid ''twice'' (classify (cycleDns ''twice'')) freshContext))
           ([] @ [''twice''])))\<rparr>"
    using t3 [THEN conjunct2, THEN conjunct2, THEN conjunct1, THEN mp, OF run]
    by (simp only: Let_def)
  then have link: "children twiceNode =
     children (mechLoop cycleDns ''twice'' 0 (insert ''twice'' {})
        (mechanismsOf (recordText twiceNode)) 0
        (emptyState
           (shapeChecks ''twice'' (recordText twiceNode)
              (trackVoid ''twice'' (classify (cycleDns ''twice'')) freshContext))
           ([] @ [''twice''])))"
    by (metis node.select_convs(1) tally.select_convs(1))
  have h1: "\<not> allFound (mechLoop cycleDns ''twice'' 0 {''twice''} [''v=spf1'', ''include:common''] 0
                 (emptyState freshContext [''twice'']))"
    and h2: "matchInclude (trim ''include:common'')"
    and h3: "\<not> matchInclude (trim ''redirect=common'')"
    and h4: "startsWith (trim ''redirect=common'') ''redirect=''"
    by code_simp+
  have e1: "(let st' = mechLoop cycleDns ''twice'' 0 {''twice''} [''v=spf1'', ''include:common''] 0
                        (emptyState freshContext [''twice'']);
                 r = parseSPFTree cycleDns (stripMechanism ''include:'' (trim ''include:common''))
                       (0 + 1) {''twice''} (shared st') (requests st')
             in mechLoop cycleDns ''twice'' 0 {''twice''} [''-all'']
                  (0 + length [''v=spf1'', ''include:common''] + 1)
                  (addInclude (trim ''include:common'')
                     (stripMechanism ''include:'' (trim ''include:common'')) (fst r)
                     (returned r st'))) =
     \<lparr>children =
        [Include ''+include:common'' ''common'' ''v=spf1 ip4:192.0.2.1''
           [Ip4 ''+ip4:192.0.2.1'' ''192.0.2.1/32'' (Num 1)] 1 [''192.0.2.1/32''] ''+'',
         Include ''+include:common'' ''common'' ''v=spf1 ip4:192.0.2.1''
           [Ip4 ''+ip4:192.0.2.1'' ''192.0.2.1/32'' (Num 1)] 1 [''192.0.2.1/32''] ''+'',
         All ''-all'' Fail 3],
      dnsLookups = 2, netblocks = [''192.0.2.1/32'', ''192.0.2.1/32''], allFound = True,
      shared = \<lparr>voidLookups = 0, warnings = [], errors = []\<rparr>,
      requests = [''twice'', ''common'', ''common'']\<rparr>"
    by code_simp
  have e2: "(let st' = mechLoop cycleDns ''twice'' 0 {''twice''} [''v=spf1'', ''include:common''] 0
                        (emptyState freshContext [''twice'']);
                 r = parseSPFTree cycleDns (drop 9 (trim ''redirect=common''))
                       (0 + 1) {''twice''} (shared st') (requests st')
             in mechLoop cycleDns ''twice'' 0 {''twice''} []
                  (0 + length [''v=spf1'', ''include:common''] + 1)
                  (addRedirect (trim ''redirect=common'') (drop 9 (trim ''redirect=common''))
                     (fst r) (returned r st'))) =
     \<lparr>children =
        [Include ''+include:common'' ''common'' ''v=spf1 ip4:192.0.2.1''
           [Ip4 ''+ip4:192.0.2.1'' ''192.0.2.1/32'' (Num 1)] 1 [''192.0.2.1/32''] ''+'',
         Redirect ''redirect=common'' ''common'' ''v=spf1 ip4:192.0.2.1''
           [Ip4 ''+ip4:192.0.2.1'' ''192.0.2.1/32'' (Num 1)] 1 [''192.0.2.1/32'']],
      dnsLookups = 2, netblocks = [''192.0.2.1/32'', ''192.0.2.1/32''], allFound = False,
      shared = \<lparr>voidLookups = 0, warnings = [], errors = []\<rparr>,
      requests = [''twice'', ''common'', ''common'']\<rparr>"
    by code_simp
  note a1 = t4 [THEN conjunct2, THEN conjunct2, THEN conjunct2, THEN conjunct1, THEN mp,
      OF conjI [OF h1 h2]]
  note a2 = t5 [THEN conjunct2, THEN conjunct2, THEN conjunct2, THEN conjunct2, THEN conjunct1,
      THEN mp, OF conjI [OF h1 conjI [OF h3 h4]]]
  note f1 = trans [OF a1 e1]
  note f2 = trans [OF a2 e2]
  from old have o1: "''self'' \<in> {''self''}"
    and o2: "parseSPFTree cycleDns ''self'' 1 {''self''} freshContext [''self''] =
       (None, \<lparr>voidLookups = 0, warnings = [], errors = [MaxDepthOrCycle ''self'']\<rparr>, [''self''])"
    and o3: "fst (parseSPFTree cycleDns ''root'' 0 {} freshContext []) = Some siblingNode"
    and o4: "list_all (pathDistinct (insert ''root'' {})) (children siblingNode)"
    by (rule conjunct1, rule conjunct2 [THEN conjunct1],
        rule conjunct2 [THEN conjunct2, THEN conjunct1],
        rule conjunct2 [THEN conjunct2, THEN conjunct2])
  show ?thesis
    by (intro conjI) (rule o1 o2 o3 o4 run toks link h1 h2 h3 h4 f1 f2)+
qed

section \<open>Upper and lower case in mechanism names\<close>



section \<open>What checkSPF delivers\<close>




section \<open>SERVFAIL and transport failures\<close>

text \<open>
  C8 at three failing lookups: a SERVFAIL answer (\<^verbatim>\<open>s1\<close>), a response that is not ok
  (\<^verbatim>\<open>t1\<close>) and an exception of the request (\<^verbatim>\<open>x1\<close>). Each returns no node and is not
  counted as void, but the context is left exactly as it was: no warning and no error is
  recorded for the status. In the run on the record that includes them, the includes after
  each failure are still resolved, and the only warnings are those for the two domains
  that do not exist.
\<close>

theorem failed_lookup_records_nothing:
  "parseSPFTree mixedDns ''s1'' 0 {} freshContext [] = (None, freshContext, [''s1'']) \<and>
   parseSPFTree mixedDns ''t1'' 0 {} freshContext [] = (None, freshContext, [''t1'']) \<and>
   parseSPFTree mixedDns ''x1'' 0 {} freshContext [] = (None, freshContext, [''x1'']) \<and>
   snd (parseSPFTree mixedDns ''example.com'' 0 {} freshContext []) =
     (\<lparr>voidLookups = 4,
       warnings = [DomainNotFound ''n1'', DomainNotFound ''n3''],
       errors = [VoidLimitExceeded 3 ''n3'', VoidLimitExceeded 4 ''n4'']\<rparr>,
      [''example.com'', ''n1'', ''s1'', ''t1'', ''x1'', ''n2'', ''n3'', ''n4''])"
  using failing_lookups_run mixedDns_run by simp

section \<open>A redirect after all\<close>

text \<open>
  C9 at the record \<^verbatim>\<open>v=spf1 -all redirect=r.example\<close>: the redirect adds no child, no DNS
  lookup and no request, and exactly one warning, that the token is ignored after all. The
  warning that a redirect is ignored when all is present is not recorded: the loop has
  gone on to the next token before the redirect branch is reached.
\<close>

theorem redirect_after_all_one_warning:
  "parseSPFTree redirectAfterAll ''example.com'' 0 {} freshContext [] =
     (Some \<lparr>children = [All ''-all'' Fail 1], dnsLookups = 0, netblocks = [],
            nodeDomain = ''example.com'', recordText = ''v=spf1 -all redirect=r.example'',
            diagnostics =
              \<lparr>voidLookups = 0,
               warnings = [IgnoredAfterAll ''redirect=r.example'' ''example.com''],
               errors = []\<rparr>\<rparr>,
      \<lparr>voidLookups = 0,
       warnings = [IgnoredAfterAll ''redirect=r.example'' ''example.com''], errors = []\<rparr>,
      [''example.com'']) \<and>
   RedirectIgnored ''example.com'' \<notin>
     set (warnings (fst (snd (parseSPFTree redirectAfterAll ''example.com'' 0 {} freshContext []))))"
  using redirectAfterAll_run by simp

end
